theory Spec2Isabelle
  imports Complex_Main
begin

section \<open>Arrays and errors\<close>

text \<open>
  Floating-point numbers are modelled by the reals. An array of shape \<open>(N, 3)\<close>
  (coordinates, loads, stress pseudo-vectors) is a list of triples; a sparse or dense
  matrix of arbitrary shape is a list of rows. Every exception the Python raises is a
  value \<open>Inl e\<close>.
\<close>

datatype error = ValueError | IndexError | TypeError | ZeroDivisionError | UnboundLocalError

type_synonym vec3 = "real \<times> real \<times> real"
type_synonym arr3 = "vec3 list"
type_synonym mat3 = "vec3 \<times> vec3 \<times> vec3"
type_synonym mat2 = "(real \<times> real) \<times> (real \<times> real)"

text \<open>A scipy sparse matrix: its shape and its rows (all entries, zeros included).\<close>

record spmatrix =
  sp_shape :: "nat \<times> nat"
  sp_rows :: "real list list"

definition vadd :: "vec3 \<Rightarrow> vec3 \<Rightarrow> vec3" where
  "vadd u v = (case u of (a, b, c) \<Rightarrow> case v of (x, y, z) \<Rightarrow> (a + x, b + y, c + z))"

definition vsub :: "vec3 \<Rightarrow> vec3 \<Rightarrow> vec3" where
  "vsub u v = (case u of (a, b, c) \<Rightarrow> case v of (x, y, z) \<Rightarrow> (a - x, b - y, c - z))"

definition smul :: "real \<Rightarrow> vec3 \<Rightarrow> vec3" where
  "smul k v = (case v of (x, y, z) \<Rightarrow> (k * x, k * y, k * z))"

definition vzero :: vec3 where
  "vzero = (0, 0, 0)"

definition vsum :: "vec3 list \<Rightarrow> vec3" where
  "vsum vs = foldr vadd vs vzero"

text \<open>\<open>numpy.linalg.norm(a, axis=1)\<close> on one row.\<close>

definition norm3 :: "vec3 \<Rightarrow> real" where
  "norm3 v = (case v of (x, y, z) \<Rightarrow> sqrt (x\<^sup>2 + y\<^sup>2 + z\<^sup>2))"

text \<open>A 3x3 array times a vector of three: \<open>R.dot(v)\<close>.\<close>

definition dot3 :: "mat3 \<Rightarrow> vec3 \<Rightarrow> vec3" where
  "dot3 R v =
     (case R of (r0, r1, r2) \<Rightarrow>
        case v of (x, y, z) \<Rightarrow>
          (fst r0 * x + fst (snd r0) * y + snd (snd r0) * z,
           fst r1 * x + fst (snd r1) * y + snd (snd r1) * z,
           fst r2 * x + fst (snd r2) * y + snd (snd r2) * z))"

text \<open>
  \<open>a - b\<close> on two arrays of shapes \<open>(m, 3)\<close> and \<open>(n, 3)\<close>: numpy broadcasts an array
  of one row against the other and raises ValueError for any other mismatch.
\<close>

definition np_sub :: "arr3 \<Rightarrow> arr3 \<Rightarrow> error + arr3" where
  "np_sub a b =
     (if length a = length b then Inr (map2 vsub a b)
      else if length a = 1 then Inr (map (\<lambda>y. vsub (hd a) y) b)
      else if length b = 1 then Inr (map (\<lambda>x. vsub x (hd b)) a)
      else Inl ValueError)"

text \<open>\<open>a[idx]\<close> with a list of row indices: a new array of the picked rows.\<close>

definition take_rows :: "arr3 \<Rightarrow> nat list \<Rightarrow> error + arr3" where
  "take_rows a idx =
     (if \<forall>i \<in> set idx. i < length a then Inr (map (\<lambda>i. a ! i) idx) else Inl IndexError)"

text \<open>
  \<open>a[idx] = x\<close>: the rows of \<open>x\<close> are written to the rows \<open>idx\<close> of \<open>a\<close> in order;
  an \<open>x\<close> of one row is broadcast, any other mismatch of the row counts raises.
\<close>

definition assign_rows :: "arr3 \<Rightarrow> nat list \<Rightarrow> arr3 \<Rightarrow> error + arr3" where
  "assign_rows a idx x =
     (if \<not> (\<forall>i \<in> set idx. i < length a) then Inl IndexError
      else if length x = length idx then Inr (fold (\<lambda>(i, v) a'. a'[i := v]) (zip idx x) a)
      else if length x = 1 then Inr (fold (\<lambda>i a'. a'[i := hd x]) idx a)
      else Inl ValueError)"

text \<open>\<open>M.dot(x)\<close> for a sparse \<open>M\<close> and an array \<open>x\<close> of shape \<open>(n, 3)\<close>.\<close>

definition sp_dot :: "spmatrix \<Rightarrow> arr3 \<Rightarrow> error + arr3" where
  "sp_dot M x =
     (if snd (sp_shape M) = length x
      then Inr (map (\<lambda>row. vsum (map2 smul row x)) (sp_rows M))
      else Inl ValueError)"

section \<open>Geometry elements as the assemblers read them\<close>

text \<open>
  The classes \<open>NaturalFace\<close> and \<open>NaturalEdge\<close> live in the geometry module; the
  assemblers read the attributes below. The record scheme leaves room for whatever
  further state an element carries.
\<close>

type_synonym frame = "vec3 \<times> vec3 \<times> vec3"

record natural_face =
  vertices_ids :: "nat list"
  force_densities :: "real list"
  area :: real
  frame :: frame

record natural_edge =
  edge_vertices_ids :: "nat list"
  force_density :: real

text \<open>
  Modelled from the spec: \<open>NaturalFace.__len__\<close> is missing from the sources; a face is
  an ordered list of vertex indices and its length is their number.
\<close>

definition len_face :: "'a natural_face_scheme \<Rightarrow> nat" where
  "len_face face = length (vertices_ids face)"

section \<open>StiffnessMatrixAssembler\<close>

text \<open>The three parallel lists \<open>self.data\<close>, \<open>self.rows\<close>, \<open>self.cols\<close>.\<close>

record coo =
  data :: "real list"
  rows :: "nat list"
  cols :: "nat list"

definition coo_empty :: coo where
  "coo_empty = \<lparr>data = [], rows = [], cols = []\<rparr>"

text \<open>
  \<open>_add_tri_face\<close>: unpacking \<open>vertices_ids\<close> or \<open>force_densities\<close> into three names
  raises ValueError unless there are exactly three.
\<close>

definition add_tri_face :: "'a natural_face_scheme \<Rightarrow> coo \<Rightarrow> error + coo" where
  "add_tri_face face A =
     (case vertices_ids face of
        [v0, v1, v2] \<Rightarrow>
          (case force_densities face of
             [n0, n1, n2] \<Rightarrow>
               Inr \<lparr>data = data A @ [n1 + n2, - n2, - n1,
                                     - n2, n0 + n2, - n0,
                                     - n1, - n0, n0 + n1],
                    rows = rows A @ (replicate 3 v0 @ replicate 3 v1 @ replicate 3 v2),
                    cols = cols A @ concat (replicate 3 [v0, v1, v2])\<rparr>
           | _ \<Rightarrow> Inl ValueError)
      | _ \<Rightarrow> Inl ValueError)"

definition add_quad_face :: "'a natural_face_scheme \<Rightarrow> coo \<Rightarrow> error + coo" where
  "add_quad_face face A =
     (case vertices_ids face of
        [v0, v1, v2, v3] \<Rightarrow>
          (case force_densities face of
             [n0, n1, n2, n3, n4, n5] \<Rightarrow>
               Inr \<lparr>data = data A @ [n0 + n3 + n5, - n0, - n5, - n3,
                                     - n0, n0 + n1 + n4, - n1, - n4,
                                     - n5, - n1, n1 + n2 + n5, - n2,
                                     - n3, - n4, - n2, n2 + n3 + n4],
                    rows = rows A @ (replicate 4 v0 @ replicate 4 v1
                                     @ replicate 4 v2 @ replicate 4 v3),
                    cols = cols A @ concat (replicate 4 [v0, v1, v2, v3])\<rparr>
           | _ \<Rightarrow> Inl ValueError)
      | _ \<Rightarrow> Inl ValueError)"

text \<open>\<open>_add_faces\<close>: the loop over the faces; any other arity falls through both tests.\<close>

fun add_faces :: "'a natural_face_scheme list \<Rightarrow> coo \<Rightarrow> error + coo" where
  "add_faces [] A = Inr A"
| "add_faces (face # faces) A =
     (let fv_count = len_face face in
      if fv_count = 3 then
        (case add_tri_face face A of Inl e \<Rightarrow> Inl e | Inr A' \<Rightarrow> add_faces faces A')
      else if fv_count = 4 then
        (case add_quad_face face A of Inl e \<Rightarrow> Inl e | Inr A' \<Rightarrow> add_faces faces A')
      else add_faces faces A)"

definition add_edge :: "'a natural_edge_scheme \<Rightarrow> coo \<Rightarrow> error + coo" where
  "add_edge edge A =
     (case edge_vertices_ids edge of
        [v0, v1] \<Rightarrow>
          (let n = force_density edge in
           Inr \<lparr>data = data A @ [n, n, - n, - n],
                rows = rows A @ [v0, v1, v0, v1],
                cols = cols A @ [v0, v1, v1, v0]\<rparr>)
      | _ \<Rightarrow> Inl ValueError)"

fun add_edges :: "'a natural_edge_scheme list \<Rightarrow> coo \<Rightarrow> error + coo" where
  "add_edges [] A = Inr A"
| "add_edges (edge # edges) A =
     (case add_edge edge A of Inl e \<Rightarrow> Inl e | Inr A' \<Rightarrow> add_edges edges A')"

text \<open>
  \<open>coo_matrix((data, (rows, cols)), (n, n)).tocsr()\<close>: scipy refuses an index outside
  the shape, and the conversion sums the entries that share a position.
\<close>

definition triplets :: "coo \<Rightarrow> (real \<times> nat \<times> nat) list" where
  "triplets A = zip (data A) (zip (rows A) (cols A))"

definition entry_sum :: "(real \<times> nat \<times> nat) list \<Rightarrow> nat \<Rightarrow> nat \<Rightarrow> real" where
  "entry_sum ts i j = sum_list (map fst (filter (\<lambda>t. fst (snd t) = i \<and> snd (snd t) = j) ts))"

definition coo_matrix :: "coo \<Rightarrow> nat \<Rightarrow> error + spmatrix" where
  "coo_matrix A n =
     (if (\<forall>r \<in> set (rows A). r < n) \<and> (\<forall>c \<in> set (cols A). c < n)
      then Inr \<lparr>sp_shape = (n, n),
                sp_rows = map (\<lambda>i. map (\<lambda>j. entry_sum (triplets A) i j) [0..<n]) [0..<n]\<rparr>
      else Inl ValueError)"

record stiffness_assembler =
  sa_free :: "nat list"
  sa_fixed :: "nat list"
  sa_mat :: spmatrix

definition StiffnessMatrixAssembler ::
  "nat list \<Rightarrow> nat list \<Rightarrow> 'e natural_edge_scheme list \<Rightarrow> 'f natural_face_scheme list
     \<Rightarrow> error + stiffness_assembler" where
  "StiffnessMatrixAssembler free fixed edges faces =
     (case add_faces faces coo_empty of
        Inl e \<Rightarrow> Inl e
      | Inr A1 \<Rightarrow>
          (case add_edges edges A1 of
             Inl e \<Rightarrow> Inl e
           | Inr A2 \<Rightarrow>
               (let v_count = length (free @ fixed) in
                case coo_matrix A2 v_count of
                  Inl e \<Rightarrow> Inl e
                | Inr M \<Rightarrow> Inr \<lparr>sa_free = free, sa_fixed = fixed, sa_mat = M\<rparr>)))"

text \<open>
  The properties \<open>matrix\<close>, \<open>free_matrix\<close>, \<open>fixed_matrix\<close>. \<open>self._mat[ix_(r, c)]\<close>
  picks the rows \<open>r\<close> and columns \<open>c\<close> in the given order and raises IndexError for an
  index outside the matrix.
\<close>

definition ix :: "spmatrix \<Rightarrow> nat list \<Rightarrow> nat list \<Rightarrow> error + spmatrix" where
  "ix M rs cs =
     (if (\<forall>r \<in> set rs. r < fst (sp_shape M)) \<and> (\<forall>c \<in> set cs. c < snd (sp_shape M))
      then Inr \<lparr>sp_shape = (length rs, length cs),
                sp_rows = map (\<lambda>i. map (\<lambda>j. sp_rows M ! i ! j) cs) rs\<rparr>
      else Inl IndexError)"

definition matrix :: "stiffness_assembler \<Rightarrow> spmatrix" where
  "matrix stiff = sa_mat stiff"

definition free_matrix :: "stiffness_assembler \<Rightarrow> error + spmatrix" where
  "free_matrix stiff = ix (sa_mat stiff) (sa_free stiff) (sa_free stiff)"

definition fixed_matrix :: "stiffness_assembler \<Rightarrow> error + spmatrix" where
  "fixed_matrix stiff = ix (sa_mat stiff) (sa_free stiff) (sa_fixed stiff)"

section \<open>math_utilities\<close>

text \<open>
  The annotations give the shapes: a stress pseudo-vector is an array of three
  (\<open>NpVec\<close>), a rotation and a stress tensor are arrays of shape \<open>(2, 2)\<close>.
\<close>

definition s2 :: "real \<Rightarrow> real" where
  "s2 angle = (sin angle)\<^sup>2"

definition c2 :: "real \<Rightarrow> real" where
  "c2 angle = (cos angle)\<^sup>2"

definition planar_rotation :: "real \<Rightarrow> mat2" where
  "planar_rotation angle = ((cos angle, - sin angle),
                            (sin angle, cos angle))"

definition is_isotropic :: "vec3 \<Rightarrow> bool" where
  "is_isotropic vec = (case vec of (v0, v1, v2) \<Rightarrow> v0 = v1 \<and> v2 = 0)"

definition stress_vec_to_tensor :: "vec3 \<Rightarrow> mat2" where
  "stress_vec_to_tensor vec = (case vec of (v0, v1, v2) \<Rightarrow> ((v0, v2),
                                                          (v2, v1)))"

definition stress_tensor_to_vec :: "mat2 \<Rightarrow> vec3" where
  "stress_tensor_to_vec tens =
     (case tens of ((t00, t01), (t10, t11)) \<Rightarrow> (t00, t11, t01))"

text \<open>\<open>A.dot(B)\<close> and \<open>A.T\<close> on arrays of shape \<open>(2, 2)\<close>.\<close>

definition dot2 :: "mat2 \<Rightarrow> mat2 \<Rightarrow> mat2" where
  "dot2 A B =
     (case A of ((a00, a01), (a10, a11)) \<Rightarrow>
        case B of ((b00, b01), (b10, b11)) \<Rightarrow>
          ((a00 * b00 + a01 * b10, a00 * b01 + a01 * b11),
           (a10 * b00 + a11 * b10, a10 * b01 + a11 * b11)))"

definition T2 :: "mat2 \<Rightarrow> mat2" where
  "T2 A = (case A of ((a00, a01), (a10, a11)) \<Rightarrow> ((a00, a10), (a01, a11)))"

definition eye2 :: mat2 where
  "eye2 = ((1, 0), (0, 1))"

definition transform_stress :: "vec3 \<Rightarrow> mat2 \<Rightarrow> bool \<Rightarrow> vec3" where
  "transform_stress stress rotation invert =
     (let s = stress_vec_to_tensor stress;
          R = rotation;
          r = (if invert then dot2 (dot2 R s) (T2 R)
               else dot2 (dot2 (T2 R) s) R)
      in stress_tensor_to_vec r)"

definition transform_stress_angle :: "vec3 \<Rightarrow> real \<Rightarrow> bool \<Rightarrow> vec3" where
  "transform_stress_angle stress angle invert =
     (let a = (if invert then - angle else angle);
          s2a = s2 a;
          c2a = c2 a;
          sca = sin a * cos a;
          T = ((c2a, s2a, 2 * sca),
               (s2a, c2a, - 2 * sca),
               (- sca, sca, c2a - s2a))
      in dot3 T stress)"

section \<open>LoadMatrixAssembler\<close>

text \<open>
  \<open>self.faces\<close> is the very list of face objects the solver updates in place, so
  \<open>update\<close> reads the faces as they are at the moment of the call: the model passes
  them in. \<open>Rotation.from_frame\<close> belongs to the compas library and is a parameter
  \<open>Rot\<close>; \<open>Rot (frame face)\<close> stands for
  \<open>asarray(Rotation.from_frame(face.frame))[:3, :3]\<close>. The load arguments are
  sequences of triples, which \<open>reshape(-1, 3)\<close> leaves as they are.
\<close>

record load_matrix_assembler =
  vertices_mat :: arr3
  gfl :: "arr3 option"
  lfl :: "arr3 option"
  has_face_loads :: bool
  mat :: arr3

definition load_mat :: "arr3 option \<Rightarrow> arr3 option \<Rightarrow> arr3 option" where
  "load_mat loads dflt = (case loads of Some l \<Rightarrow> Some l | None \<Rightarrow> dflt)"

text \<open>
  \<open>self._mat[ids, :] += v\<close>: numpy reads the rows \<open>ids\<close>, adds \<open>v\<close> to each and writes
  them back, so a row named twice still receives \<open>v\<close> once.
\<close>

definition add_rows :: "arr3 \<Rightarrow> nat list \<Rightarrow> vec3 \<Rightarrow> error + arr3" where
  "add_rows M ids v =
     (if \<forall>i \<in> set ids. i < length M
      then Inr (map (\<lambda>i. if i \<in> set ids then vadd (M ! i) v else M ! i) [0..<length M])
      else Inl IndexError)"

text \<open>
  \<open>_add_face_loads\<close>: the loop over \<open>zip(self.faces, face_loads)\<close>. A face of length 0
  makes the division raise.
\<close>

fun add_face_loads ::
  "(frame \<Rightarrow> mat3) \<Rightarrow> bool \<Rightarrow> ('a natural_face_scheme \<times> vec3) list \<Rightarrow> arr3 \<Rightarrow> error + arr3" where
  "add_face_loads Rot local [] M = Inr M"
| "add_face_loads Rot local ((face, face_load) # rest) M =
     (if len_face face = 0 then Inl ZeroDivisionError
      else
        (let vertex_load = smul (area face / real (len_face face)) face_load;
             vertex_load = (if local then dot3 (Rot (frame face)) vertex_load
                            else vertex_load)
         in case add_rows M (vertices_ids face) vertex_load of
              Inl e \<Rightarrow> Inl e
            | Inr M' \<Rightarrow> add_face_loads Rot local rest M'))"

definition update ::
  "(frame \<Rightarrow> mat3) \<Rightarrow> 'a natural_face_scheme list \<Rightarrow> load_matrix_assembler
     \<Rightarrow> error + load_matrix_assembler" where
  "update Rot faces L =
     (if \<not> has_face_loads L then Inr L
      else
        (let M0 = vertices_mat L in
         case (case gfl L of None \<Rightarrow> Inr M0
               | Some face_loads \<Rightarrow> add_face_loads Rot False (zip faces face_loads) M0) of
           Inl e \<Rightarrow> Inl e
         | Inr M1 \<Rightarrow>
             (case (case lfl L of None \<Rightarrow> Inr M1
                    | Some face_loads \<Rightarrow> add_face_loads Rot True (zip faces face_loads) M1) of
                Inl e \<Rightarrow> Inl e
              | Inr M2 \<Rightarrow> Inr (L\<lparr>mat := M2\<rparr>))))"

definition LoadMatrixAssembler ::
  "(frame \<Rightarrow> mat3) \<Rightarrow> nat \<Rightarrow> 'a natural_face_scheme list \<Rightarrow> arr3 option \<Rightarrow> arr3 option
     \<Rightarrow> arr3 option \<Rightarrow> error + load_matrix_assembler" where
  "LoadMatrixAssembler Rot sz faces vertex_loads global_face_loads local_face_loads =
     (let vm = the (load_mat vertex_loads (Some (replicate sz vzero)));
          g = load_mat global_face_loads None;
          l = load_mat local_face_loads None
      in update Rot faces
           \<lparr>vertices_mat = vm, gfl = g, lfl = l,
            has_face_loads = (g \<noteq> None \<or> l \<noteq> None), mat = vm\<rparr>)"

section \<open>The inner solve\<close>

text \<open>
  The solver module imports its assemblers from a sibling module \<open>matrices\<close> and its
  elements from \<open>geometry\<close>. The assemblers are those defined above, read by role: the
  stiffness assembler receives the free and fixed indices, the edges and the faces, and
  \<open>stiff.full\<close>, \<open>stiff.free\<close>, \<open>stiff.fixed\<close> are its full matrix, its free-free block
  and its free-fixed block; the load assembler receives the number of vertices. What
  the geometry module and the libraries provide is a parameter of the model:
  \<open>spsolve\<close> of scipy (an error value stands for a system it cannot solve),
  \<open>Rotation.from_frame\<close> of compas, and the methods of the elements.
\<close>

record ('f, 'e, 's) api =
  spsolve :: "spmatrix \<Rightarrow> arr3 \<Rightarrow> error + arr3"
  Rotation_from_frame :: "frame \<Rightarrow> mat3"
  face_update_xyz :: "'f natural_face_scheme \<Rightarrow> arr3 \<Rightarrow> 'f natural_face_scheme"
  edge_update_xyz :: "'e natural_edge_scheme \<Rightarrow> arr3 \<Rightarrow> 'e natural_edge_scheme"
  get_stresses :: "'f natural_face_scheme list \<Rightarrow> arr3 \<Rightarrow> int \<Rightarrow> 's"
  get_forces :: "'e natural_edge_scheme list \<Rightarrow> arr3 \<Rightarrow> real list"
  get_stress_goals :: "'f natural_face_scheme list \<Rightarrow> arr3"
  amplitudes :: "'s \<Rightarrow> arr3 option"

text \<open>
  Coordinate arrays are numpy objects that the code copies, rebinds and assigns into,
  so they live in a store: a reference is an index into the list of all arrays
  allocated so far. The faces, edges and load assembler are mutated in place by the
  solve; the model returns their new states.
\<close>

type_synonym heap = "arr3 list"
type_synonym ref = nat

record ('f, 'e, 's) solve_result =
  sr_heap :: heap
  sr_xyz :: ref
  sr_r :: arr3
  sr_s :: 's
  sr_f :: "real list"
  sr_faces :: "'f natural_face_scheme list"
  sr_edges :: "'e natural_edge_scheme list"
  sr_loads :: load_matrix_assembler

text \<open>\<open>list(set(range(v)) - set(fixed))\<close>, listed in ascending order.\<close>

definition free_of :: "nat \<Rightarrow> nat list \<Rightarrow> nat list" where
  "free_of v fixed = filter (\<lambda>i. i \<notin> set fixed) [0..<v]"

text \<open>The right-hand side \<open>p[free] - Df.dot(xyz[fixed])\<close>, evaluated left to right.\<close>

definition rhs :: "arr3 \<Rightarrow> spmatrix \<Rightarrow> arr3 \<Rightarrow> nat list \<Rightarrow> nat list \<Rightarrow> error + arr3" where
  "rhs p Df xyz free fixed =
     (case take_rows p free of
        Inl e \<Rightarrow> Inl e
      | Inr p_free \<Rightarrow>
          (case take_rows xyz fixed of
             Inl e \<Rightarrow> Inl e
           | Inr xyz_fixed \<Rightarrow>
               (case sp_dot Df xyz_fixed of
                  Inl e \<Rightarrow> Inl e
                | Inr b \<Rightarrow> np_sub p_free b)))"

text \<open>\<open>r = p - D.dot(xyz)\<close>.\<close>

definition residuals :: "arr3 \<Rightarrow> spmatrix \<Rightarrow> arr3 \<Rightarrow> error + arr3" where
  "residuals p D xyz = (case sp_dot D xyz of Inl e \<Rightarrow> Inl e | Inr Dx \<Rightarrow> np_sub p Dx)"

definition nfd_solve ::
  "('f, 'e, 's) api \<Rightarrow> heap \<Rightarrow> ref \<Rightarrow> nat list \<Rightarrow> 'f natural_face_scheme list
     \<Rightarrow> 'e natural_edge_scheme list \<Rightarrow> load_matrix_assembler \<Rightarrow> int
     \<Rightarrow> error + ('f, 'e, 's) solve_result" where
  "nfd_solve api h xyz fixed faces edges loads s_calc =
     (let v = length (h ! xyz);
          free = free_of v fixed;
          xyz' = length h;
          h1 = h @ [h ! xyz]
      in
      (case StiffnessMatrixAssembler free fixed edges faces of
         Inl e \<Rightarrow> Inl e
       | Inr stiff \<Rightarrow>
      (let D = matrix stiff in
      (case free_matrix stiff of
         Inl e \<Rightarrow> Inl e
       | Inr Di \<Rightarrow>
      (case fixed_matrix stiff of
         Inl e \<Rightarrow> Inl e
       | Inr Df \<Rightarrow>
      (case update (Rotation_from_frame api) faces loads of
         Inl e \<Rightarrow> Inl e
       | Inr loads' \<Rightarrow>
      (let p = mat loads' in
      (case rhs p Df (h1 ! xyz) free fixed of
         Inl e \<Rightarrow> Inl e
       | Inr b \<Rightarrow>
      (case spsolve api Di b of
         Inl e \<Rightarrow> Inl e
       | Inr x \<Rightarrow>
      (case assign_rows (h1 ! xyz') free x of
         Inl e \<Rightarrow> Inl e
       | Inr a \<Rightarrow>
      (let h2 = h1[xyz' := a];
           faces' = map (\<lambda>face. face_update_xyz api face (h2 ! xyz')) faces;
           edges' = map (\<lambda>edge. edge_update_xyz api edge (h2 ! xyz')) edges;
           s = get_stresses api faces' (h2 ! xyz') s_calc;
           f = get_forces api edges' (h2 ! xyz')
       in
      (case residuals p D (h2 ! xyz) of
         Inl e \<Rightarrow> Inl e
       | Inr r \<Rightarrow>
           Inr \<lparr>sr_heap = h2, sr_xyz = xyz', sr_r = r, sr_s = s, sr_f = f,
                sr_faces = faces', sr_edges = edges', sr_loads = loads'\<rparr>))))))))))))"

section \<open>The driver\<close>

text \<open>\<open>numpy.average\<close> of no values is NaN (here \<open>None\<close>), and NaN is below nothing.\<close>

definition average :: "real list \<Rightarrow> real option" where
  "average xs = (if xs = [] then None else Some (sum_list xs / real (length xs)))"

definition below :: "real option \<Rightarrow> real \<Rightarrow> bool" where
  "below x t = (case x of None \<Rightarrow> False | Some y \<Rightarrow> y < t)"

text \<open>Python's built-in \<open>max\<close> raises ValueError on an empty sequence.\<close>

definition py_max :: "real list \<Rightarrow> error + real" where
  "py_max xs = (case xs of [] \<Rightarrow> Inl ValueError | y # ys \<Rightarrow> Inr (fold max ys y))"

text \<open>The variables that one pass through the loop body leaves behind.\<close>

record ('f, 'e) iteration =
  it_k :: nat
  it_heap :: heap
  it_xyz :: ref
  it_r :: arr3
  it_f :: "real list"
  it_s_res :: "real option"
  it_xyz_delta :: real
  it_converged :: bool
  it_faces :: "'f natural_face_scheme list"
  it_edges :: "'e natural_edge_scheme list"
  it_loads :: load_matrix_assembler

definition loop_body ::
  "('f, 'e, 's) api \<Rightarrow> nat list \<Rightarrow> real \<Rightarrow> real \<Rightarrow> nat \<Rightarrow> heap \<Rightarrow> ref
     \<Rightarrow> 'f natural_face_scheme list \<Rightarrow> 'e natural_edge_scheme list \<Rightarrow> load_matrix_assembler
     \<Rightarrow> error + ('f, 'e) iteration" where
  "loop_body api fixed s_tol xyz_tol k h xyz faces edges loads =
     (case nfd_solve api h xyz fixed faces edges loads (- 1) of
        Inl e \<Rightarrow> Inl e
      | Inr out \<Rightarrow>
     (let s_goals = get_stress_goals api (sr_faces out) in
     (case amplitudes api (sr_s out) of
        None \<Rightarrow> Inl TypeError
      | Some amps \<Rightarrow>
     (case np_sub s_goals amps of
        Inl e \<Rightarrow> Inl e
      | Inr ds \<Rightarrow>
     (let s_res = average (map norm3 ds) in
     (case np_sub (sr_heap out ! xyz) (sr_heap out ! sr_xyz out) of
        Inl e \<Rightarrow> Inl e
      | Inr dx \<Rightarrow>
     (case py_max (map norm3 dx) of
        Inl e \<Rightarrow> Inl e
      | Inr xyz_delta \<Rightarrow>
     (let converged = (below s_res s_tol \<or> xyz_delta < xyz_tol) in
      Inr \<lparr>it_k = k, it_heap = sr_heap out, it_xyz = sr_xyz out, it_r = sr_r out,
           it_f = sr_f out, it_s_res = s_res, it_xyz_delta = xyz_delta,
           it_converged = converged, it_faces = sr_faces out, it_edges = sr_edges out,
           it_loads = sr_loads out\<rparr>))))))))"

text \<open>
  \<open>for k in range(kmax)\<close> with its \<open>break\<close>: \<open>n\<close> passes remain, \<open>prev\<close> holds the
  variables of the pass before (none before the first).
\<close>

fun for_loop ::
  "('f, 'e, 's) api \<Rightarrow> nat list \<Rightarrow> real \<Rightarrow> real \<Rightarrow> nat \<Rightarrow> nat \<Rightarrow> heap \<Rightarrow> ref
     \<Rightarrow> 'f natural_face_scheme list \<Rightarrow> 'e natural_edge_scheme list \<Rightarrow> load_matrix_assembler
     \<Rightarrow> ('f, 'e) iteration option \<Rightarrow> error + ('f, 'e) iteration option" where
  "for_loop api fixed s_tol xyz_tol 0 k h xyz faces edges loads prev = Inr prev"
| "for_loop api fixed s_tol xyz_tol (Suc n) k h xyz faces edges loads prev =
     (case loop_body api fixed s_tol xyz_tol k h xyz faces edges loads of
        Inl e \<Rightarrow> Inl e
      | Inr it \<Rightarrow>
          if it_converged it then Inr (Some it)
          else for_loop api fixed s_tol xyz_tol n (Suc k) (it_heap it) (it_xyz it)
                 (it_faces it) (it_edges it) (it_loads it) (Some it))"

text \<open>
  What \<open>_output_message\<close> prints: which of the two messages, the number \<open>k + 1\<close>, and
  for the second message the two residuals it rounds.
\<close>

datatype message =
    Convergence_reached nat
  | No_convergence_reached nat "real option" real

definition output_message :: "bool \<Rightarrow> nat \<Rightarrow> real option \<Rightarrow> real \<Rightarrow> message" where
  "output_message converged k s_res xyz_delta =
     (if converged then Convergence_reached (k + 1)
      else No_convergence_reached (k + 1) s_res xyz_delta)"

text \<open>
  \<open>Goals\<close> and \<open>mesh_preprocess\<close> belong to the geometry module; the model starts from
  what \<open>mesh_preprocess\<close> returns.
\<close>

record ('f, 'e) nfd_args =
  a_faces :: "'f natural_face_scheme list"
  a_edges :: "'e natural_edge_scheme list"
  a_vertices :: arr3
  a_fixed :: "nat list"
  a_vertex_loads :: "arr3 option"
  a_global_face_loads :: "arr3 option"
  a_local_face_loads :: "arr3 option"
  a_s_calc :: int
  a_s_tol :: real
  a_xyz_tol :: real

record 's nfd_result =
  res_xyz :: arr3
  res_r :: arr3
  res_s :: 's
  res_f :: "real list"
  res_printed :: "message option"

definition solve_output :: "('f, 'e, 's) solve_result \<Rightarrow> 's nfd_result" where
  "solve_output out =
     \<lparr>res_xyz = sr_heap out ! sr_xyz out, res_r = sr_r out, res_s = sr_s out,
      res_f = sr_f out, res_printed = None\<rparr>"

definition nfd_ur :: "('f, 'e, 's) api \<Rightarrow> ('f, 'e) nfd_args \<Rightarrow> int \<Rightarrow> error + 's nfd_result" where
  "nfd_ur api args kmax =
     (let faces = a_faces args; edges = a_edges args;
          vertices = a_vertices args; fixed = a_fixed args
      in
      (case LoadMatrixAssembler (Rotation_from_frame api) (length vertices) faces
              (a_vertex_loads args) (a_global_face_loads args) (a_local_face_loads args) of
         Inl e \<Rightarrow> Inl e
       | Inr loads \<Rightarrow>
      (let h = [vertices]; xyz = 0 in
       if kmax = 1 then
         (case nfd_solve api h xyz fixed faces edges loads (a_s_calc args) of
            Inl e \<Rightarrow> Inl e
          | Inr out \<Rightarrow> Inr (solve_output out))
       else
         (case for_loop api fixed (a_s_tol args) (a_xyz_tol args) (nat kmax) 0
                 h xyz faces edges loads None of
            Inl e \<Rightarrow> Inl e
          | Inr None \<Rightarrow> Inl UnboundLocalError
          | Inr (Some it) \<Rightarrow>
              (let printed = output_message (it_converged it) (it_k it) (it_s_res it)
                               (it_xyz_delta it);
                   s = get_stresses api (it_faces it) (it_heap it ! it_xyz it) (a_s_calc args)
               in Inr \<lparr>res_xyz = it_heap it ! it_xyz it, res_r = it_r it, res_s = s,
                       res_f = it_f it, res_printed = Some printed\<rparr>)))))"

text \<open>\<open>nfd = partial(nfd_ur, kmax=1)\<close>.\<close>

definition nfd :: "('f, 'e, 's) api \<Rightarrow> ('f, 'e) nfd_args \<Rightarrow> error + 's nfd_result" where
  "nfd api args = nfd_ur api args 1"

section \<open>Notions used to state the properties\<close>

text \<open>
  What the assembler enters at position \<open>(i, j)\<close> for one face alone and for one edge
  alone, read off the assembler itself.
\<close>

definition face_contribution :: "'a natural_face_scheme \<Rightarrow> nat \<Rightarrow> nat \<Rightarrow> real" where
  "face_contribution face i j =
     (case add_faces [face] coo_empty of
        Inr A \<Rightarrow> entry_sum (triplets A) i j
      | Inl e \<Rightarrow> 0)"

definition edge_contribution :: "'a natural_edge_scheme \<Rightarrow> nat \<Rightarrow> nat \<Rightarrow> real" where
  "edge_contribution edge i j =
     (case add_edges [edge] coo_empty of
        Inr A \<Rightarrow> entry_sum (triplets A) i j
      | Inl e \<Rightarrow> 0)"

text \<open>
  The block of a triangle as the specification words it: on the diagonal the sum of the
  force densities of the two edges at that vertex, off the diagonal minus the force
  density of the edge between the two vertices, where \<open>n2\<close> belongs to the edge
  \<open>v0 v1\<close>, \<open>n1\<close> to \<open>v0 v2\<close> and \<open>n0\<close> to \<open>v1 v2\<close>.
\<close>

definition tri_block ::
  "nat \<Rightarrow> nat \<Rightarrow> nat \<Rightarrow> real \<Rightarrow> real \<Rightarrow> real \<Rightarrow> nat \<Rightarrow> nat \<Rightarrow> real" where
  "tri_block v0 v1 v2 n0 n1 n2 i j =
     (if i = j then
        (if i = v0 then n1 + n2 else if i = v1 then n0 + n2 else if i = v2 then n0 + n1 else 0)
      else if {i, j} = {v0, v1} then - n2
      else if {i, j} = {v0, v2} then - n1
      else if {i, j} = {v1, v2} then - n0
      else 0)"

text \<open>
  The graph Laplacian of a list of edges, built directly: degree matrix minus
  adjacency matrix. The degree of a vertex counts the edge ends at it, the adjacency
  of two vertices counts the edges between them in either direction.
\<close>

definition degree :: "(nat \<times> nat) list \<Rightarrow> nat \<Rightarrow> nat" where
  "degree E i = length (filter (\<lambda>e. fst e = i) E) + length (filter (\<lambda>e. snd e = i) E)"

definition adjacency :: "(nat \<times> nat) list \<Rightarrow> nat \<Rightarrow> nat \<Rightarrow> nat" where
  "adjacency E i j = length (filter (\<lambda>e. e = (i, j)) E) + length (filter (\<lambda>e. e = (j, i)) E)"

definition laplacian :: "(nat \<times> nat) list \<Rightarrow> nat \<Rightarrow> nat \<Rightarrow> real" where
  "laplacian E i j = (if i = j then real (degree E i) else 0) - real (adjacency E i j)"

text \<open>Appending the triplets of one assembler state to another.\<close>

definition coo_append :: "coo \<Rightarrow> coo \<Rightarrow> coo" where
  "coo_append A B = \<lparr>data = data A @ data B, rows = rows A @ rows B, cols = cols A @ cols B\<rparr>"

definition coo_ok :: "coo \<Rightarrow> bool" where
  "coo_ok A \<longleftrightarrow> length (data A) = length (rows A) \<and> length (rows A) = length (cols A)"

text \<open>
  The load matrix as the specification words it. The share of one face load that
  every vertex of the face receives: the load (turned into the global frame first when
  it is local) times the face area over the number of face vertices. Row \<open>i\<close> of the
  matrix is the static vertex load plus the shares of all loaded faces that have \<open>i\<close>
  as a vertex.
\<close>

definition static_baseline :: "nat \<Rightarrow> arr3 option \<Rightarrow> arr3" where
  "static_baseline n vertex_loads =
     (case vertex_loads of Some l \<Rightarrow> l | None \<Rightarrow> replicate n vzero)"

definition load_share :: "(frame \<Rightarrow> mat3) \<Rightarrow> bool \<Rightarrow> 'a natural_face_scheme \<Rightarrow> vec3 \<Rightarrow> vec3" where
  "load_share Rot local face face_load =
     smul (area face / real (len_face face))
       (if local then dot3 (Rot (frame face)) face_load else face_load)"

definition shares_at ::
  "(frame \<Rightarrow> mat3) \<Rightarrow> bool \<Rightarrow> ('a natural_face_scheme \<times> vec3) list \<Rightarrow> nat \<Rightarrow> vec3" where
  "shares_at Rot local ps i =
     vsum (map (\<lambda>p. load_share Rot local (fst p) (snd p))
             (filter (\<lambda>p. i \<in> set (vertices_ids (fst p))) ps))"

definition face_loads_at ::
  "(frame \<Rightarrow> mat3) \<Rightarrow> bool \<Rightarrow> 'a natural_face_scheme list \<Rightarrow> arr3 option \<Rightarrow> nat \<Rightarrow> vec3" where
  "face_loads_at Rot local faces loads i =
     (case loads of None \<Rightarrow> vzero | Some ls \<Rightarrow> shares_at Rot local (zip faces ls) i)"

definition spec_load_matrix ::
  "(frame \<Rightarrow> mat3) \<Rightarrow> 'a natural_face_scheme list \<Rightarrow> load_matrix_assembler \<Rightarrow> arr3" where
  "spec_load_matrix Rot faces L =
     map (\<lambda>i. vadd (vadd (vertices_mat L ! i) (face_loads_at Rot False faces (gfl L) i))
                    (face_loads_at Rot True faces (lfl L) i))
       [0..<length (vertices_mat L)]"

text \<open>
  The faces that carry a load are well formed: they have at least one vertex, and
  their vertices are rows of the load matrix.
\<close>

definition pairs_ok :: "('a natural_face_scheme \<times> vec3) list \<Rightarrow> nat \<Rightarrow> bool" where
  "pairs_ok ps n \<longleftrightarrow>
     (\<forall>p \<in> set ps. len_face (fst p) \<noteq> 0 \<and> (\<forall>v \<in> set (vertices_ids (fst p)). v < n))"

definition loads_ok :: "'a natural_face_scheme list \<Rightarrow> arr3 option \<Rightarrow> nat \<Rightarrow> bool" where
  "loads_ok faces loads n =
     (case loads of None \<Rightarrow> True | Some ls \<Rightarrow> pairs_ok (zip faces ls) n)"

text \<open>
  The residuals of one pass as the specification words them: the mean over the faces
  of the Euclidean norm of goal stress minus stress amplitudes, and the maximum over
  the vertices of the Euclidean distance between the coordinates before and after
  the pass.
\<close>

definition spec_stress_residual :: "arr3 \<Rightarrow> arr3 \<Rightarrow> real" where
  "spec_stress_residual goals amps =
     sum_list (map (\<lambda>i. norm3 (vsub (goals ! i) (amps ! i))) [0..<length goals])
       / real (length goals)"

definition spec_displacement_residual :: "arr3 \<Rightarrow> arr3 \<Rightarrow> real" where
  "spec_displacement_residual old new =
     Max (set (map (\<lambda>i. norm3 (vsub (old ! i) (new ! i))) [0..<length old]))"

text \<open>
  What one pass computes, given the coordinates \<open>old\<close> it started from and the
  coordinates \<open>new\<close> it solved for: the stress residual compares the goals with the
  amplitudes of the stresses just computed on the updated faces (with one goal and
  one amplitude per face this is the mean above), the displacement residual is the
  maximum above, and the pass counts as converged when either residual is below its
  tolerance.
\<close>

definition pass_spec ::
  "('f, 'e, 's) api \<Rightarrow> real \<Rightarrow> real \<Rightarrow> arr3 \<Rightarrow> arr3 \<Rightarrow> ('f, 'e) iteration \<Rightarrow> bool" where
  "pass_spec api s_tol xyz_tol old new it =
     (let goals = get_stress_goals api (it_faces it) in
      (case amplitudes api (get_stresses api (it_faces it) new (- 1)) of
         None \<Rightarrow> False
       | Some amps \<Rightarrow>
           (case np_sub goals amps of
              Inl e \<Rightarrow> False
            | Inr ds \<Rightarrow> it_s_res it = average (map norm3 ds))
           \<and> (length amps = length goals \<and> goals \<noteq> [] \<longrightarrow>
                it_s_res it = Some (spec_stress_residual goals amps)))
      \<and> length new = length old \<and> old \<noteq> []
      \<and> it_xyz_delta it = spec_displacement_residual old new
      \<and> it_converged it = (below (it_s_res it) s_tol \<or> it_xyz_delta it < xyz_tol))"

text \<open>
  The passes of the loop, were it never to break: pass \<open>0\<close> runs the loop body with
  counter \<open>k\<close> on the given variables, pass \<open>n + 1\<close> runs it with counter \<open>k + n + 1\<close>
  on the variables that pass \<open>n\<close> left behind.
\<close>

fun pass ::
  "('f, 'e, 's) api \<Rightarrow> nat list \<Rightarrow> real \<Rightarrow> real \<Rightarrow> nat \<Rightarrow> heap \<Rightarrow> ref
     \<Rightarrow> 'f natural_face_scheme list \<Rightarrow> 'e natural_edge_scheme list \<Rightarrow> load_matrix_assembler
     \<Rightarrow> nat \<Rightarrow> error + ('f, 'e) iteration" where
  "pass api fixed s_tol xyz_tol k h xyz faces edges loads 0 =
     loop_body api fixed s_tol xyz_tol k h xyz faces edges loads"
| "pass api fixed s_tol xyz_tol k h xyz faces edges loads (Suc n) =
     (case pass api fixed s_tol xyz_tol k h xyz faces edges loads n of
        Inl e \<Rightarrow> Inl e
      | Inr it \<Rightarrow>
          loop_body api fixed s_tol xyz_tol (Suc (k + n)) (it_heap it) (it_xyz it)
            (it_faces it) (it_edges it) (it_loads it))"

section \<open>An example mesh\<close>

text \<open>
  Three vertices on a line, the two outer ones fixed, one triangular face over all
  three, one edge between the fixed vertices, and a load on the free vertex. The
  linear solver of the example handles systems of one unknown; the element methods
  are simple stand-ins.
\<close>

definition solve_one :: "spmatrix \<Rightarrow> arr3 \<Rightarrow> error + arr3" where
  "solve_one A b =
     (if sp_shape A = (1, 1) then
        (case sp_rows A of
           [[k]] \<Rightarrow>
             (case b of
                [v] \<Rightarrow> if k = 0 then Inl ValueError else Inr [smul (1 / k) v]
              | _ \<Rightarrow> Inl ValueError)
         | _ \<Rightarrow> Inl ValueError)
      else Inl ValueError)"

definition example_api :: "(unit, unit, arr3 option) api" where
  "example_api =
     \<lparr>spsolve = solve_one,
      Rotation_from_frame = (\<lambda>fr. ((1, 0, 0), (0, 1, 0), (0, 0, 1))),
      face_update_xyz = (\<lambda>face xyz. face\<lparr>area := fst (vsum xyz)\<rparr>),
      edge_update_xyz = (\<lambda>edge xyz. edge),
      get_stresses = (\<lambda>faces xyz s_calc.
         if s_calc = 0 then None else Some (map (\<lambda>face. (0, 1, 0)) faces)),
      get_forces = (\<lambda>edges xyz. map force_density edges),
      get_stress_goals = (\<lambda>faces. map (\<lambda>face. (1, 1, 0)) faces),
      amplitudes = (\<lambda>s. s)\<rparr>"

definition example_face :: natural_face where
  "example_face = \<lparr>vertices_ids = [0, 1, 2], force_densities = [1, 0, 1], area = 1,
                   frame = (vzero, vzero, vzero)\<rparr>"

definition example_edge :: natural_edge where
  "example_edge = \<lparr>edge_vertices_ids = [0, 2], force_density = 1\<rparr>"

definition example_xyz :: arr3 where
  "example_xyz = [(0, 0, 0), (1, 0, 0), (2, 0, 0)]"

definition example_loads :: load_matrix_assembler where
  "example_loads = \<lparr>vertices_mat = [(0, 0, 0), (0, 0, 2), (0, 0, 0)], gfl = None, lfl = None,
                    has_face_loads = False, mat = [(0, 0, 0), (0, 0, 2), (0, 0, 0)]\<rparr>"

definition example_args :: "(unit, unit) nfd_args" where
  "example_args =
     \<lparr>a_faces = [example_face], a_edges = [example_edge], a_vertices = example_xyz,
      a_fixed = [0, 2], a_vertex_loads = Some [(0, 0, 0), (0, 0, 2), (0, 0, 0)],
      a_global_face_loads = None, a_local_face_loads = None, a_s_calc = 1,
      a_s_tol = 1 / 100, a_xyz_tol = 1 / 100\<rparr>"

section \<open>Properties of the stress transforms\<close>

lemma transform_stress_angle_eq:
  "transform_stress_angle (a, b, c) \<theta> False =
     ((cos \<theta>)\<^sup>2 * a + (sin \<theta>)\<^sup>2 * b + 2 * (sin \<theta> * cos \<theta>) * c,
      (sin \<theta>)\<^sup>2 * a + (cos \<theta>)\<^sup>2 * b + - 2 * (sin \<theta> * cos \<theta>) * c,
      - (sin \<theta> * cos \<theta>) * a + sin \<theta> * cos \<theta> * b + ((cos \<theta>)\<^sup>2 - (sin \<theta>)\<^sup>2) * c)"
  by (simp add: transform_stress_angle_def s2_def c2_def dot3_def Let_def)

lemma transform_stress_angle_invert:
  "transform_stress_angle s \<theta> True = transform_stress_angle s (- \<theta>) False"
  by (simp add: transform_stress_angle_def)

lemma angle_there_and_back:
  "transform_stress_angle (transform_stress_angle s \<theta> False) (- \<theta>) False = s"
proof -
  obtain a b c where s: "s = (a, b, c)" by (cases s) auto
  define S where "S = sin \<theta>"
  define C where "C = cos \<theta>"
  have h: "S\<^sup>2 + C\<^sup>2 = 1" by (simp add: S_def C_def)
  have 1: "C\<^sup>2 * (C\<^sup>2 * a + S\<^sup>2 * b + 2 * (S * C) * c)
           + S\<^sup>2 * (S\<^sup>2 * a + C\<^sup>2 * b + - 2 * (S * C) * c)
           + 2 * (- S * C) * (- (S * C) * a + S * C * b + (C\<^sup>2 - S\<^sup>2) * c) = a"
    using h by algebra
  have 2: "S\<^sup>2 * (C\<^sup>2 * a + S\<^sup>2 * b + 2 * (S * C) * c)
           + C\<^sup>2 * (S\<^sup>2 * a + C\<^sup>2 * b + - 2 * (S * C) * c)
           + - 2 * (- S * C) * (- (S * C) * a + S * C * b + (C\<^sup>2 - S\<^sup>2) * c) = b"
    using h by algebra
  have 3: "- (- S * C) * (C\<^sup>2 * a + S\<^sup>2 * b + 2 * (S * C) * c)
           + (- S * C) * (S\<^sup>2 * a + C\<^sup>2 * b + - 2 * (S * C) * c)
           + (C\<^sup>2 - S\<^sup>2) * (- (S * C) * a + S * C * b + (C\<^sup>2 - S\<^sup>2) * c) = c"
    using h by algebra
  show ?thesis
    unfolding s transform_stress_angle_eq
    using 1 2 3 by (simp add: S_def C_def)
qed

lemma transform_stress_eq:
  "transform_stress (a, b, c) ((p, q), (r, t)) False =
     (p * (p * a + r * c) + r * (p * c + r * b),
      q * (q * a + t * c) + t * (q * c + t * b),
      q * (p * a + r * c) + t * (p * c + r * b))"
  "transform_stress (a, b, c) ((p, q), (r, t)) True =
     (p * (p * a + q * c) + q * (p * c + q * b),
      r * (r * a + t * c) + t * (r * c + t * b),
      r * (p * a + q * c) + t * (p * c + q * b))"
  by (simp_all add: transform_stress_def stress_vec_to_tensor_def stress_tensor_to_vec_def
        dot2_def T2_def Let_def algebra_simps)

text \<open>A left inverse of a 2x2 matrix is a right inverse: \<open>R\<^sup>T R = I\<close> gives \<open>R R\<^sup>T = I\<close>.\<close>

lemma orth2:
  fixes p q r t :: real
  assumes "dot2 (T2 ((p, q), (r, t))) ((p, q), (r, t)) = eye2"
  shows "p * p + r * r = 1" "p * q + r * t = 0" "q * q + t * t = 1"
        "p * p + q * q = 1" "p * r + q * t = 0" "r * r + t * t = 1"
proof -
  from assms show a: "p * p + r * r = 1" and b: "p * q + r * t = 0" and c: "q * q + t * t = 1"
    by (simp_all add: dot2_def T2_def eye2_def)
  from a b c show "p * p + q * q = 1" "p * r + q * t = 0" "r * r + t * t = 1"
    by algebra+
qed

lemma matrix_there_and_back:
  assumes "dot2 (T2 R) R = eye2"
  shows "transform_stress (transform_stress s R False) R True = s"
    and "transform_stress (transform_stress s R True) R False = s"
proof -
  obtain a b c where s: "s = (a, b, c)" by (cases s) auto
  obtain p q r t where R: "R = ((p, q), (r, t))" by (cases R) auto
  note o = orth2[OF assms[unfolded R]]
  have "p * (p * (p * (p * a + r * c) + r * (p * c + r * b)) + q * (q * (p * a + r * c) + t * (p * c + r * b)))
        + q * (p * (q * (p * a + r * c) + t * (p * c + r * b)) + q * (q * (q * a + t * c) + t * (q * c + t * b))) = a"
    using o by algebra
  moreover have "r * (r * (p * (p * a + r * c) + r * (p * c + r * b)) + t * (q * (p * a + r * c) + t * (p * c + r * b)))
        + t * (r * (q * (p * a + r * c) + t * (p * c + r * b)) + t * (q * (q * a + t * c) + t * (q * c + t * b))) = b"
    using o by algebra
  moreover have "r * (p * (p * (p * a + r * c) + r * (p * c + r * b)) + q * (q * (p * a + r * c) + t * (p * c + r * b)))
        + t * (p * (q * (p * a + r * c) + t * (p * c + r * b)) + q * (q * (q * a + t * c) + t * (q * c + t * b))) = c"
    using o by algebra
  ultimately show "transform_stress (transform_stress s R False) R True = s"
    unfolding s R transform_stress_eq by simp
  have "p * (p * (p * (p * a + q * c) + q * (p * c + q * b)) + r * (r * (p * a + q * c) + t * (p * c + q * b)))
        + r * (p * (r * (p * a + q * c) + t * (p * c + q * b)) + r * (r * (r * a + t * c) + t * (r * c + t * b))) = a"
    using o by algebra
  moreover have "q * (q * (p * (p * a + q * c) + q * (p * c + q * b)) + t * (r * (p * a + q * c) + t * (p * c + q * b)))
        + t * (q * (r * (p * a + q * c) + t * (p * c + q * b)) + t * (r * (r * a + t * c) + t * (r * c + t * b))) = b"
    using o by algebra
  moreover have "q * (p * (p * (p * a + q * c) + q * (p * c + q * b)) + r * (r * (p * a + q * c) + t * (p * c + q * b)))
        + t * (p * (r * (p * a + q * c) + t * (p * c + q * b)) + r * (r * (r * a + t * c) + t * (r * c + t * b))) = c"
    using o by algebra
  ultimately show "transform_stress (transform_stress s R True) R False = s"
    unfolding s R transform_stress_eq by simp
qed

text \<open>
  C9. Over the reals, transforming a stress pseudo-vector by an angle and then by the
  same angle with \<open>invert\<close> set gives the vector back (in either order), and \<open>invert\<close>
  is the transform by the negated angle. With a matrix \<open>R\<close>, \<open>invert = False\<close> computes
  \<open>R\<^sup>T S R\<close> and \<open>invert = True\<close> computes \<open>R S R\<^sup>T\<close> on the tensor \<open>S\<close> of the vector,
  and when \<open>R\<^sup>T R = I\<close> the one undoes the other.
\<close>

theorem transform_stress_round_trip:
  "transform_stress_angle (transform_stress_angle s \<theta> False) \<theta> True = s
   \<and> transform_stress_angle (transform_stress_angle s \<theta> True) \<theta> False = s
   \<and> transform_stress_angle s \<theta> True = transform_stress_angle s (- \<theta>) False
   \<and> transform_stress s R False
       = stress_tensor_to_vec (dot2 (dot2 (T2 R) (stress_vec_to_tensor s)) R)
   \<and> transform_stress s R True
       = stress_tensor_to_vec (dot2 (dot2 R (stress_vec_to_tensor s)) (T2 R))
   \<and> (dot2 (T2 R) R = eye2 \<longrightarrow>
        transform_stress (transform_stress s R False) R True = s
      \<and> transform_stress (transform_stress s R True) R False = s)"
proof -
  have a: "transform_stress_angle (transform_stress_angle s \<theta> False) \<theta> True = s"
    by (simp only: transform_stress_angle_invert angle_there_and_back)
  have "transform_stress_angle (transform_stress_angle s (- \<theta>) False) (- (- \<theta>)) False = s"
    by (rule angle_there_and_back)
  then have b: "transform_stress_angle (transform_stress_angle s \<theta> True) \<theta> False = s"
    by (simp add: transform_stress_angle_invert)
  have c: "transform_stress s R False
             = stress_tensor_to_vec (dot2 (dot2 (T2 R) (stress_vec_to_tensor s)) R)"
    and d: "transform_stress s R True
             = stress_tensor_to_vec (dot2 (dot2 R (stress_vec_to_tensor s)) (T2 R))"
    by (simp_all add: transform_stress_def Let_def)
  from a b c d transform_stress_angle_invert matrix_there_and_back show ?thesis
    by blast
qed

text \<open>
  The theorem at the quarter turn \<open>planar_rotation (pi / 2)\<close> and the stress vector
  \<open>(1, 2, 3)\<close>.
\<close>

theorem transform_stress_round_trip_witness:
  "dot2 (T2 (planar_rotation (pi / 2))) (planar_rotation (pi / 2)) = eye2
   \<and> transform_stress (1, 2, 3) (planar_rotation (pi / 2)) False = (2, 1, - 3)
   \<and> transform_stress (transform_stress (1, 2, 3) (planar_rotation (pi / 2)) False)
        (planar_rotation (pi / 2)) True = (1, 2, 3)
   \<and> transform_stress_angle (transform_stress_angle (1, 2, 3) (pi / 2) False) (pi / 2) True
       = (1, 2, 3)"
proof -
  have o: "dot2 (T2 (planar_rotation (pi / 2))) (planar_rotation (pi / 2)) = eye2"
    by (simp add: planar_rotation_def dot2_def T2_def eye2_def)
  have v: "transform_stress (1, 2, 3) (planar_rotation (pi / 2)) False = (2, 1, - 3)"
    by (simp add: planar_rotation_def transform_stress_eq)
  from o v transform_stress_round_trip [of "(1, 2, 3)" "pi / 2" "planar_rotation (pi / 2)"]
  show ?thesis by blast
qed

section \<open>Properties of the stiffness assembler\<close>

lemma coo_append_empty [simp]: "coo_append A coo_empty = A" "coo_append coo_empty A = A"
  by (simp_all add: coo_append_def coo_empty_def)

lemma coo_append_assoc: "coo_append (coo_append A B) C = coo_append A (coo_append B C)"
  by (simp add: coo_append_def)

lemma coo_ok_empty [simp]: "coo_ok coo_empty"
  by (simp add: coo_ok_def coo_empty_def)

lemma coo_ok_append: "coo_ok A \<Longrightarrow> coo_ok B \<Longrightarrow> coo_ok (coo_append A B)"
  by (simp add: coo_ok_def coo_append_def)

lemma triplets_append: "coo_ok A \<Longrightarrow> triplets (coo_append A B) = triplets A @ triplets B"
  by (simp add: coo_ok_def coo_append_def triplets_def)

lemma entry_sum_append: "entry_sum (xs @ ys) i j = entry_sum xs i j + entry_sum ys i j"
  by (simp add: entry_sum_def)

lemma entry_sum_Nil [simp]: "entry_sum [] i j = 0"
  by (simp add: entry_sum_def)

lemma triplets_empty [simp]: "triplets coo_empty = []"
  by (simp add: triplets_def coo_empty_def)

lemma add_tri_face_append:
  "add_tri_face face A =
     (case add_tri_face face coo_empty of Inl e \<Rightarrow> Inl e | Inr B \<Rightarrow> Inr (coo_append A B))"
  by (simp add: add_tri_face_def coo_append_def coo_empty_def split: list.splits)

lemma add_quad_face_append:
  "add_quad_face face A =
     (case add_quad_face face coo_empty of Inl e \<Rightarrow> Inl e | Inr B \<Rightarrow> Inr (coo_append A B))"
  by (simp add: add_quad_face_def coo_append_def coo_empty_def split: list.splits)

lemma add_edge_append:
  "add_edge edge A =
     (case add_edge edge coo_empty of Inl e \<Rightarrow> Inl e | Inr B \<Rightarrow> Inr (coo_append A B))"
  by (simp add: add_edge_def coo_append_def coo_empty_def Let_def split: list.splits)

lemma add_tri_face_ok: "add_tri_face face coo_empty = Inr B \<Longrightarrow> coo_ok B"
  by (auto simp: add_tri_face_def coo_ok_def coo_empty_def eval_nat_numeral split: list.splits)

lemma add_quad_face_ok: "add_quad_face face coo_empty = Inr B \<Longrightarrow> coo_ok B"
  by (auto simp: add_quad_face_def coo_ok_def coo_empty_def eval_nat_numeral split: list.splits)

lemma add_edge_ok: "add_edge edge coo_empty = Inr B \<Longrightarrow> coo_ok B"
  by (auto simp: add_edge_def coo_ok_def coo_empty_def Let_def split: list.splits)

text \<open>One face alone: the three cases of the loop body.\<close>

lemma add_faces_single:
  "add_faces [face] A =
     (if len_face face = 3 then add_tri_face face A
      else if len_face face = 4 then add_quad_face face A
      else Inr A)"
  by (simp add: Let_def split: sum.splits)

lemma add_faces_single_append:
  "add_faces [face] A =
     (case add_faces [face] coo_empty of Inl e \<Rightarrow> Inl e | Inr B \<Rightarrow> Inr (coo_append A B))"
  unfolding add_faces_single
  using add_tri_face_append[of face A] add_quad_face_append[of face A]
  by (simp split: sum.splits)

lemma add_faces_single_ok: "add_faces [face] coo_empty = Inr B \<Longrightarrow> coo_ok B"
  unfolding add_faces_single
  by (auto split: if_splits dest: add_tri_face_ok add_quad_face_ok)

lemma add_faces_Cons:
  "add_faces (face # faces) A =
     (case add_faces [face] A of Inl e \<Rightarrow> Inl e | Inr A' \<Rightarrow> add_faces faces A')"
  by (simp add: Let_def split: sum.splits)

declare add_faces.simps(2) [simp del]

lemma add_faces_append:
  "add_faces faces A =
     (case add_faces faces coo_empty of Inl e \<Rightarrow> Inl e | Inr B \<Rightarrow> Inr (coo_append A B))"
proof (induction faces arbitrary: A)
  case Nil
  then show ?case by simp
next
  case (Cons face faces)
  show ?case
  proof (cases "add_faces [face] coo_empty")
    case (Inl e)
    then show ?thesis
      using add_faces_single_append[of face A]
      by (simp add: add_faces_Cons[of face faces])
  next
    case (Inr B)
    then have 1: "add_faces [face] A = Inr (coo_append A B)"
      using add_faces_single_append[of face A] by simp
    show ?thesis
      using Cons.IH[of B] Cons.IH[of "coo_append A B"] Inr 1
      by (simp add: add_faces_Cons[of face faces] coo_append_assoc split: sum.splits)
  qed
qed

lemma add_faces_ok: "add_faces faces coo_empty = Inr B \<Longrightarrow> coo_ok B"
proof (induction faces arbitrary: B)
  case Nil
  then show ?case by simp
next
  case (Cons face faces)
  from Cons.prems obtain B1 where 1: "add_faces [face] coo_empty = Inr B1"
    and 2: "add_faces faces B1 = Inr B"
    by (auto simp: add_faces_Cons[of face faces] split: sum.splits)
  from 2 obtain B2 where 3: "add_faces faces coo_empty = Inr B2" and 4: "B = coo_append B1 B2"
    using add_faces_append[of faces B1] by (auto split: sum.splits)
  show ?case
    using add_faces_single_ok[OF 1] Cons.IH[OF 3] 4 by (simp add: coo_ok_append)
qed

lemma add_faces_entry:
  "add_faces faces coo_empty = Inr B \<Longrightarrow>
     entry_sum (triplets B) i j = (\<Sum>face\<leftarrow>faces. face_contribution face i j)"
proof (induction faces arbitrary: B)
  case Nil
  then show ?case by simp
next
  case (Cons face faces)
  from Cons.prems obtain B1 where 1: "add_faces [face] coo_empty = Inr B1"
    and 2: "add_faces faces B1 = Inr B"
    by (auto simp: add_faces_Cons[of face faces] split: sum.splits)
  from 2 obtain B2 where 3: "add_faces faces coo_empty = Inr B2" and 4: "B = coo_append B1 B2"
    using add_faces_append[of faces B1] by (auto split: sum.splits)
  have "entry_sum (triplets B) i j = entry_sum (triplets B1) i j + entry_sum (triplets B2) i j"
    using add_faces_single_ok[OF 1] 4 by (simp add: triplets_append entry_sum_append)
  also have "entry_sum (triplets B1) i j = face_contribution face i j"
    using 1 by (simp add: face_contribution_def)
  finally show ?case using Cons.IH[OF 3] by simp
qed

lemma add_edges_single: "add_edges [edge] A = add_edge edge A"
  by (simp split: sum.splits)

lemma add_edges_Cons:
  "add_edges (edge # edges) A =
     (case add_edges [edge] A of Inl e \<Rightarrow> Inl e | Inr A' \<Rightarrow> add_edges edges A')"
  by (simp split: sum.splits)

declare add_edges.simps(2) [simp del]

lemma add_edges_single_append:
  "add_edges [edge] A =
     (case add_edges [edge] coo_empty of Inl e \<Rightarrow> Inl e | Inr B \<Rightarrow> Inr (coo_append A B))"
  unfolding add_edges_single using add_edge_append[of edge A] by simp

lemma add_edges_single_ok: "add_edges [edge] coo_empty = Inr B \<Longrightarrow> coo_ok B"
  unfolding add_edges_single by (rule add_edge_ok)

lemma add_edges_append:
  "add_edges edges A =
     (case add_edges edges coo_empty of Inl e \<Rightarrow> Inl e | Inr B \<Rightarrow> Inr (coo_append A B))"
proof (induction edges arbitrary: A)
  case Nil
  then show ?case by simp
next
  case (Cons edge edges)
  show ?case
  proof (cases "add_edges [edge] coo_empty")
    case (Inl e)
    then show ?thesis
      using add_edges_single_append[of edge A]
      by (simp add: add_edges_Cons[of edge edges])
  next
    case (Inr B)
    then have 1: "add_edges [edge] A = Inr (coo_append A B)"
      using add_edges_single_append[of edge A] by simp
    show ?thesis
      using Cons.IH[of B] Cons.IH[of "coo_append A B"] Inr 1
      by (simp add: add_edges_Cons[of edge edges] coo_append_assoc split: sum.splits)
  qed
qed

lemma add_edges_ok: "add_edges edges coo_empty = Inr B \<Longrightarrow> coo_ok B"
proof (induction edges arbitrary: B)
  case Nil
  then show ?case by simp
next
  case (Cons edge edges)
  from Cons.prems obtain B1 where 1: "add_edges [edge] coo_empty = Inr B1"
    and 2: "add_edges edges B1 = Inr B"
    by (auto simp: add_edges_Cons[of edge edges] split: sum.splits)
  from 2 obtain B2 where 3: "add_edges edges coo_empty = Inr B2" and 4: "B = coo_append B1 B2"
    using add_edges_append[of edges B1] by (auto split: sum.splits)
  show ?case
    using add_edges_single_ok[OF 1] Cons.IH[OF 3] 4 by (simp add: coo_ok_append)
qed

lemma add_edges_entry:
  "add_edges edges coo_empty = Inr B \<Longrightarrow>
     entry_sum (triplets B) i j = (\<Sum>edge\<leftarrow>edges. edge_contribution edge i j)"
proof (induction edges arbitrary: B)
  case Nil
  then show ?case by simp
next
  case (Cons edge edges)
  from Cons.prems obtain B1 where 1: "add_edges [edge] coo_empty = Inr B1"
    and 2: "add_edges edges B1 = Inr B"
    by (auto simp: add_edges_Cons[of edge edges] split: sum.splits)
  from 2 obtain B2 where 3: "add_edges edges coo_empty = Inr B2" and 4: "B = coo_append B1 B2"
    using add_edges_append[of edges B1] by (auto split: sum.splits)
  have "entry_sum (triplets B) i j = entry_sum (triplets B1) i j + entry_sum (triplets B2) i j"
    using add_edges_single_ok[OF 1] 4 by (simp add: triplets_append entry_sum_append)
  also have "entry_sum (triplets B1) i j = edge_contribution edge i j"
    using 1 by (simp add: edge_contribution_def)
  finally show ?case using Cons.IH[OF 3] by simp
qed

text \<open>The entries of the assembled matrix are the sums of the contributions.\<close>

lemma assembler_entries:
  assumes "StiffnessMatrixAssembler free fixed edges faces = Inr stiff"
  shows "sa_free stiff = free" "sa_fixed stiff = fixed"
    "sp_shape (matrix stiff) = (length (free @ fixed), length (free @ fixed))"
    "length (sp_rows (matrix stiff)) = length (free @ fixed)"
    "i < length (free @ fixed) \<Longrightarrow> length (sp_rows (matrix stiff) ! i) = length (free @ fixed)"
    "i < length (free @ fixed) \<Longrightarrow> j < length (free @ fixed) \<Longrightarrow>
       sp_rows (matrix stiff) ! i ! j =
         (\<Sum>face\<leftarrow>faces. face_contribution face i j)
         + (\<Sum>edge\<leftarrow>edges. edge_contribution edge i j)"
proof -
  from assms obtain A1 A2 M where 1: "add_faces faces coo_empty = Inr A1"
    and 2: "add_edges edges A1 = Inr A2"
    and 3: "coo_matrix A2 (length (free @ fixed)) = Inr M"
    and 4: "stiff = \<lparr>sa_free = free, sa_fixed = fixed, sa_mat = M\<rparr>"
    by (auto simp: StiffnessMatrixAssembler_def Let_def split: sum.splits)
  from 2 obtain B where 5: "add_edges edges coo_empty = Inr B" and 6: "A2 = coo_append A1 B"
    using add_edges_append[of edges A1] by (auto split: sum.splits)
  from 3 have M: "M = \<lparr>sp_shape = (length (free @ fixed), length (free @ fixed)),
       sp_rows = map (\<lambda>i. map (\<lambda>j. entry_sum (triplets A2) i j) [0..<length (free @ fixed)])
                   [0..<length (free @ fixed)]\<rparr>"
    by (auto simp: coo_matrix_def split: if_splits)
  have E: "entry_sum (triplets A2) i j =
         (\<Sum>face\<leftarrow>faces. face_contribution face i j)
         + (\<Sum>edge\<leftarrow>edges. edge_contribution edge i j)" for i j
    using add_faces_ok[OF 1] add_faces_entry[OF 1] add_edges_entry[OF 5] 6
    by (simp add: triplets_append entry_sum_append)
  show "sa_free stiff = free" "sa_fixed stiff = fixed" using 4 by simp_all
  show "sp_shape (matrix stiff) = (length (free @ fixed), length (free @ fixed))"
    using 4 M by (simp add: matrix_def)
  show "length (sp_rows (matrix stiff)) = length (free @ fixed)"
    using 4 M by (simp add: matrix_def)
  show "i < length (free @ fixed) \<Longrightarrow> length (sp_rows (matrix stiff) ! i) = length (free @ fixed)"
    using 4 M by (simp add: matrix_def)
  show "i < length (free @ fixed) \<Longrightarrow> j < length (free @ fixed) \<Longrightarrow>
       sp_rows (matrix stiff) ! i ! j =
         (\<Sum>face\<leftarrow>faces. face_contribution face i j)
         + (\<Sum>edge\<leftarrow>edges. edge_contribution edge i j)"
    using 4 M E by (simp add: matrix_def)
qed

text \<open>The block of one triangle.\<close>

lemma tri_face_triplets:
  assumes "vertices_ids face = [v0, v1, v2]" "force_densities face = [n0, n1, n2]"
  shows "face_contribution face i j =
     entry_sum [(n1 + n2, v0, v0), (- n2, v0, v1), (- n1, v0, v2),
                (- n2, v1, v0), (n0 + n2, v1, v1), (- n0, v1, v2),
                (- n1, v2, v0), (- n0, v2, v1), (n0 + n1, v2, v2)] i j"
  using assms
  by (simp add: face_contribution_def add_faces_single len_face_def add_tri_face_def
      coo_empty_def triplets_def eval_nat_numeral)

lemma tri_block_entries:
  assumes "v0 \<noteq> v1" "v0 \<noteq> v2" "v1 \<noteq> v2"
  shows "entry_sum [(n1 + n2, v0, v0), (- n2, v0, v1), (- n1, v0, v2),
                (- n2, v1, v0), (n0 + n2, v1, v1), (- n0, v1, v2),
                (- n1, v2, v0), (- n0, v2, v1), (n0 + n1, v2, v2)] i j
         = tri_block v0 v1 v2 n0 n1 n2 i j"
proof -
  consider "i = v0" | "i = v1" | "i = v2" | "i \<noteq> v0" "i \<noteq> v1" "i \<noteq> v2" by blast
  then show ?thesis
  proof cases
    case 1
    then show ?thesis using assms
      by (simp add: entry_sum_def tri_block_def doubleton_eq_iff)
  next
    case 2
    then show ?thesis using assms
      by (simp add: entry_sum_def tri_block_def doubleton_eq_iff)
  next
    case 3
    then show ?thesis using assms
      by (simp add: entry_sum_def tri_block_def doubleton_eq_iff)
  next
    case 4
    then show ?thesis using assms
      by (simp add: entry_sum_def tri_block_def doubleton_eq_iff)
  qed
qed

lemma tri_block_sym: "tri_block v0 v1 v2 n0 n1 n2 i j = tri_block v0 v1 v2 n0 n1 n2 j i"
  by (simp add: tri_block_def insert_commute)

text \<open>
  C2. A triangular face with distinct vertices \<open>v0, v1, v2\<close> and force densities
  \<open>n0, n1, n2\<close> contributes the symmetric block of the specification: on the diagonal
  \<open>n1 + n2\<close> at \<open>v0\<close>, \<open>n0 + n2\<close> at \<open>v1\<close>, \<open>n0 + n1\<close> at \<open>v2\<close>, off the diagonal minus
  the force density of the edge between the two vertices. Every entry of the assembled
  matrix is the sum of the contributions of all faces and all edges.
\<close>

theorem tri_face_block_accumulates:
  "(vertices_ids face = [v0, v1, v2] \<and> force_densities face = [n0, n1, n2]
      \<and> distinct [v0, v1, v2] \<longrightarrow>
      face_contribution face i j = tri_block v0 v1 v2 n0 n1 n2 i j
      \<and> face_contribution face i j = face_contribution face j i)
   \<and> (StiffnessMatrixAssembler free fixed edges faces = Inr stiff
      \<and> i < length (free @ fixed) \<and> j < length (free @ fixed) \<longrightarrow>
      sp_rows (matrix stiff) ! i ! j =
        (\<Sum>face\<leftarrow>faces. face_contribution face i j)
        + (\<Sum>edge\<leftarrow>edges. edge_contribution edge i j))"
proof (intro conjI impI)
  assume a: "vertices_ids face = [v0, v1, v2] \<and> force_densities face = [n0, n1, n2]
      \<and> distinct [v0, v1, v2]"
  then have d: "v0 \<noteq> v1" "v0 \<noteq> v2" "v1 \<noteq> v2" by auto
  have c: "face_contribution face i j = tri_block v0 v1 v2 n0 n1 n2 i j" for i j
    using a tri_face_triplets[of face v0 v1 v2 n0 n1 n2 i j]
      tri_block_entries[OF d, of n1 n2 n0 i j] by simp
  show "face_contribution face i j = tri_block v0 v1 v2 n0 n1 n2 i j" by (rule c)
  show "face_contribution face i j = face_contribution face j i"
    using c tri_block_sym[of v0 v1 v2 n0 n1 n2 i j] by simp
next
  assume "StiffnessMatrixAssembler free fixed edges faces = Inr stiff
      \<and> i < length (free @ fixed) \<and> j < length (free @ fixed)"
  then show "sp_rows (matrix stiff) ! i ! j =
        (\<Sum>face\<leftarrow>faces. face_contribution face i j)
        + (\<Sum>edge\<leftarrow>edges. edge_contribution edge i j)"
    using assembler_entries(6)[of free fixed edges faces stiff i j] by blast
qed

text \<open>
  An example: the triangle \<open>0 1 2\<close> with force densities \<open>1, 2, 3\<close> and the edge \<open>0 1\<close>
  with force density \<open>5\<close>; the entry \<open>(0, 1)\<close> of the matrix is \<open>- 3 - 5\<close>.
\<close>

theorem tri_face_block_accumulates_witness:
  "StiffnessMatrixAssembler [1] [0, 2]
     [\<lparr>edge_vertices_ids = [0, 1], force_density = 5\<rparr>]
     [\<lparr>vertices_ids = [0, 1, 2], force_densities = [1, 2, 3], area = 1,
       frame = (vzero, vzero, vzero)\<rparr>]
   = Inr \<lparr>sa_free = [1], sa_fixed = [0, 2],
          sa_mat = \<lparr>sp_shape = (3, 3),
                    sp_rows = [[10, - 8, - 2], [- 8, 9, - 1], [- 2, - 1, 3]]\<rparr>\<rparr>
   \<and> face_contribution \<lparr>vertices_ids = [0, 1, 2], force_densities = [1, 2, 3], area = 1,
       frame = (vzero, vzero, vzero)\<rparr> 0 1 = - 3
   \<and> face_contribution \<lparr>vertices_ids = [0, 1, 2], force_densities = [1, 2, 3], area = 1,
       frame = (vzero, vzero, vzero)\<rparr> 0 1
     + edge_contribution \<lparr>edge_vertices_ids = [0, 1], force_density = 5\<rparr> 0 1 = - 8"
proof -
  let ?f = "\<lparr>vertices_ids = [0, 1, 2], force_densities = [1, 2, 3], area = 1,
       frame = (vzero, vzero, vzero)\<rparr>"
  let ?e = "\<lparr>edge_vertices_ids = [0, 1], force_density = 5\<rparr>"
  let ?s = "\<lparr>sa_free = [1], sa_fixed = [0, 2],
          sa_mat = \<lparr>sp_shape = (3, 3),
                    sp_rows = [[10, - 8, - 2], [- 8, 9, - 1], [- 2, - 1, 3]]\<rparr>\<rparr>"
  have 1: "StiffnessMatrixAssembler [1] [0, 2] [?e] [?f] = Inr ?s"
    by (simp add: StiffnessMatrixAssembler_def add_faces_single len_face_def add_tri_face_def
      add_edges_single add_edge_def coo_empty_def coo_matrix_def triplets_def entry_sum_def
      eval_nat_numeral upt_rec Let_def)
  note t = tri_face_block_accumulates[of ?f 0 1 2 1 2 3 0 1 "[1]" "[0, 2]" "[?e]" "[?f]" ?s]
  have 2: "face_contribution ?f 0 1 = - 3"
    using t by (simp add: tri_block_def)
  have 3: "face_contribution ?f 0 1 + edge_contribution ?e 0 1 = - 8"
    using t 1 by (simp add: matrix_def)
  from 1 2 3 show ?thesis by blast
qed

text \<open>A face that is neither a triangle nor a quadrilateral is passed over.\<close>

lemma add_faces_skip:
  assumes "len_face face \<noteq> 3" "len_face face \<noteq> 4"
  shows "add_faces (fs1 @ face # fs2) A = add_faces (fs1 @ fs2) A"
proof (induction fs1 arbitrary: A)
  case Nil
  have "add_faces [face] A = Inr A" using assms by (simp add: add_faces_single)
  then show ?case by (simp add: add_faces_Cons[of face fs2])
next
  case (Cons g fs1)
  show ?case
    using Cons.IH
    by (simp add: add_faces_Cons[of g "fs1 @ face # fs2"] add_faces_Cons[of g "fs1 @ fs2"]
        split: sum.splits)
qed

text \<open>
  C8. A face whose vertex count is neither 3 nor 4 adds nothing and raises nothing:
  alone it leaves the triplet lists as they are, and the assembler gives the same
  result (matrix or error) with the face as without it.
\<close>

theorem other_arity_skipped:
  "len_face face \<noteq> 3 \<and> len_face face \<noteq> 4 \<longrightarrow>
     add_faces [face] A = Inr A
     \<and> StiffnessMatrixAssembler free fixed edges (fs1 @ face # fs2)
       = StiffnessMatrixAssembler free fixed edges (fs1 @ fs2)"
  by (simp add: add_faces_single StiffnessMatrixAssembler_def add_faces_skip)

text \<open>
  An example: a face of five vertices, one of them not a vertex of the mesh, next to
  the triangle \<open>0 1 2\<close>.
\<close>

theorem other_arity_skipped_witness:
  "len_face \<lparr>vertices_ids = [0, 1, 2, 1, 7], force_densities = [1], area = 1,
       frame = (vzero, vzero, vzero)\<rparr> = 5
   \<and> StiffnessMatrixAssembler [1] [0, 2]
     [\<lparr>edge_vertices_ids = [0, 1], force_density = 5\<rparr>]
     [\<lparr>vertices_ids = [0, 1, 2], force_densities = [1, 2, 3], area = 1,
       frame = (vzero, vzero, vzero)\<rparr>,
      \<lparr>vertices_ids = [0, 1, 2, 1, 7], force_densities = [1], area = 1,
       frame = (vzero, vzero, vzero)\<rparr>]
   = Inr \<lparr>sa_free = [1], sa_fixed = [0, 2],
          sa_mat = \<lparr>sp_shape = (3, 3),
                    sp_rows = [[10, - 8, - 2], [- 8, 9, - 1], [- 2, - 1, 3]]\<rparr>\<rparr>"
proof -
  let ?f = "\<lparr>vertices_ids = [0, 1, 2], force_densities = [1, 2, 3], area = 1,
       frame = (vzero, vzero, vzero)\<rparr>"
  let ?g = "\<lparr>vertices_ids = [0, 1, 2, 1, 7], force_densities = [1], area = 1,
       frame = (vzero, vzero, vzero)\<rparr>"
  let ?e = "\<lparr>edge_vertices_ids = [0, 1], force_density = 5\<rparr>"
  have 0: "len_face ?g = 5" by (simp add: len_face_def)
  have 1: "StiffnessMatrixAssembler [1] [0, 2] [?e] ([?f] @ [])
    = Inr \<lparr>sa_free = [1], sa_fixed = [0, 2],
          sa_mat = \<lparr>sp_shape = (3, 3),
                    sp_rows = [[10, - 8, - 2], [- 8, 9, - 1], [- 2, - 1, 3]]\<rparr>\<rparr>"
    by (simp add: StiffnessMatrixAssembler_def add_faces_single len_face_def add_tri_face_def
      add_edges_single add_edge_def coo_empty_def coo_matrix_def triplets_def entry_sum_def
      eval_nat_numeral upt_rec Let_def)
  from 0 1 other_arity_skipped[of ?g coo_empty "[1]" "[0, 2]" "[?e]" "[?f]" "[]"]
  show ?thesis by simp
qed

text \<open>The Laplacian of a list of edges is the sum of the Laplacians of its edges.\<close>

lemma laplacian_Nil [simp]: "laplacian [] i j = 0"
  by (simp add: laplacian_def degree_def adjacency_def)

lemma laplacian_Cons: "laplacian (e # E) i j = laplacian [e] i j + laplacian E i j"
  by (simp add: laplacian_def degree_def adjacency_def)

lemma edge_contribution_eq:
  assumes "edge_vertices_ids edge = [a, b]"
  shows "edge_contribution edge i j
         = entry_sum [(force_density edge, a, a), (force_density edge, b, b),
                      (- force_density edge, a, b), (- force_density edge, b, a)] i j"
  using assms
  by (simp add: edge_contribution_def add_edges_single add_edge_def coo_empty_def
      triplets_def Let_def)

lemma single_edge_laplacian:
  "entry_sum [(q, a, a), (q, b, b), (- q, a, b), (- q, b, a)] i j = q * laplacian [(a, b)] i j"
  by (simp add: entry_sum_def laplacian_def degree_def adjacency_def)

lemma edges_laplacian:
  assumes "map edge_vertices_ids edges = map (\<lambda>(a, b). [a, b]) E"
    and "\<forall>edge \<in> set edges. force_density edge = q"
  shows "(\<Sum>edge\<leftarrow>edges. edge_contribution edge i j) = q * laplacian E i j"
  using assms
proof (induction edges arbitrary: E)
  case Nil
  then show ?case by simp
next
  case (Cons edge edges)
  from Cons.prems(1) obtain a b E' where E: "E = (a, b) # E'"
    and ab: "edge_vertices_ids edge = [a, b]"
    and rest: "map edge_vertices_ids edges = map (\<lambda>(a, b). [a, b]) E'"
    by (cases E) auto
  have "edge_contribution edge i j = q * laplacian [(a, b)] i j"
    using edge_contribution_eq[OF ab, of i j] Cons.prems(2)
    by (simp add: single_edge_laplacian)
  moreover have "(\<Sum>edge\<leftarrow>edges. edge_contribution edge i j) = q * laplacian E' i j"
    using Cons.IH[OF rest] Cons.prems(2) by simp
  ultimately show ?case
    unfolding E by (simp add: laplacian_Cons[of "(a, b)" E'] algebra_simps)
qed

text \<open>The assembler succeeds on edges of two vertices each, all inside the matrix.\<close>

lemma add_edges_defined:
  assumes "map edge_vertices_ids edges = map (\<lambda>(a, b). [a, b]) E"
    and "\<forall>(a, b) \<in> set E. a < n \<and> b < n"
  shows "\<exists>B. add_edges edges coo_empty = Inr B
             \<and> (\<forall>r \<in> set (rows B). r < n) \<and> (\<forall>c \<in> set (cols B). c < n)"
  using assms
proof (induction edges arbitrary: E)
  case Nil
  then show ?case by (simp add: coo_empty_def)
next
  case (Cons edge edges)
  from Cons.prems(1) obtain a b E' where E: "E = (a, b) # E'"
    and ab: "edge_vertices_ids edge = [a, b]"
    and rest: "map edge_vertices_ids edges = map (\<lambda>(a, b). [a, b]) E'"
    by (cases E) auto
  from Cons.prems(2) E have n: "a < n" "b < n" and n': "\<forall>(a, b) \<in> set E'. a < n \<and> b < n"
    by auto
  from Cons.IH[OF rest n'] obtain B where B: "add_edges edges coo_empty = Inr B"
    and Bn: "\<forall>r \<in> set (rows B). r < n" "\<forall>c \<in> set (cols B). c < n"
    by blast
  let ?B1 = "\<lparr>data = [force_density edge, force_density edge,
                       - force_density edge, - force_density edge],
               rows = [a, b, a, b], cols = [a, b, b, a]\<rparr>"
  have 1: "add_edges [edge] coo_empty = Inr ?B1"
    using ab by (simp add: add_edges_single add_edge_def coo_empty_def Let_def)
  have "add_edges (edge # edges) coo_empty = Inr (coo_append ?B1 B)"
    using 1 B add_edges_append[of edges ?B1]
    by (simp add: add_edges_Cons[of edge edges])
  moreover have "\<forall>r \<in> set (rows (coo_append ?B1 B)). r < n"
    using n Bn by (auto simp: coo_append_def)
  moreover have "\<forall>c \<in> set (cols (coo_append ?B1 B)). c < n"
    using n Bn by (auto simp: coo_append_def)
  ultimately show ?case by blast
qed

lemma add_faces_none:
  assumes "\<forall>face \<in> set faces. len_face face \<noteq> 3 \<and> len_face face \<noteq> 4"
  shows "add_faces faces A = Inr A"
  using assms
proof (induction faces)
  case Nil
  then show ?case by simp
next
  case (Cons face faces)
  then show ?case
    by (simp add: add_faces_Cons[of face faces] add_faces_single)
qed

lemma face_contribution_none:
  assumes "len_face face \<noteq> 3" "len_face face \<noteq> 4"
  shows "face_contribution face i j = 0"
  using assms by (simp add: face_contribution_def add_faces_single)

text \<open>
  C7. With every edge carrying the force density \<open>q\<close> and no face contributing, the
  assembled matrix is \<open>q\<close> times the graph Laplacian of the edges (degree matrix minus
  adjacency matrix). Where no edge joins a vertex to itself the diagonal holds \<open>q\<close>
  times the degree; off the diagonal stands \<open>- q\<close> times the number of edges between
  the two vertices.
\<close>

theorem uniform_edges_give_laplacian:
  assumes "map edge_vertices_ids edges = map (\<lambda>(a, b). [a, b]) E"
    and "\<forall>edge \<in> set edges. force_density edge = q"
    and "\<forall>(a, b) \<in> set E. a < length (free @ fixed) \<and> b < length (free @ fixed)"
    and "\<forall>face \<in> set faces. len_face face \<noteq> 3 \<and> len_face face \<noteq> 4"
  shows "StiffnessMatrixAssembler free fixed edges faces
         = Inr \<lparr>sa_free = free, sa_fixed = fixed,
                sa_mat = \<lparr>sp_shape = (length (free @ fixed), length (free @ fixed)),
                          sp_rows = map (\<lambda>i. map (\<lambda>j. q * laplacian E i j)
                                                [0..<length (free @ fixed)])
                                        [0..<length (free @ fixed)]\<rparr>\<rparr>
         \<and> (i \<noteq> j \<longrightarrow> laplacian E i j = - real (adjacency E i j))
         \<and> ((\<forall>(a, b) \<in> set E. a \<noteq> b) \<longrightarrow> laplacian E i i = real (degree E i))"
proof (intro conjI impI)
  let ?n = "length (free @ fixed)"
  from add_edges_defined[OF assms(1) assms(3)] obtain B
    where B: "add_edges edges coo_empty = Inr B"
      and Bn: "\<forall>r \<in> set (rows B). r < ?n" "\<forall>c \<in> set (cols B). c < ?n"
    by blast
  have F: "add_faces faces coo_empty = Inr coo_empty"
    by (rule add_faces_none[OF assms(4)])
  have "entry_sum (triplets B) i j = q * laplacian E i j" for i j
    using add_edges_entry[OF B, of i j] edges_laplacian[OF assms(1) assms(2), of i j] by simp
  then have "coo_matrix B ?n = Inr \<lparr>sp_shape = (?n, ?n),
       sp_rows = map (\<lambda>i. map (\<lambda>j. q * laplacian E i j) [0..<?n]) [0..<?n]\<rparr>"
    using Bn by (simp add: coo_matrix_def)
  then show "StiffnessMatrixAssembler free fixed edges faces
         = Inr \<lparr>sa_free = free, sa_fixed = fixed,
                sa_mat = \<lparr>sp_shape = (?n, ?n),
                          sp_rows = map (\<lambda>i. map (\<lambda>j. q * laplacian E i j) [0..<?n])
                                        [0..<?n]\<rparr>\<rparr>"
    using F B by (simp add: StiffnessMatrixAssembler_def Let_def)
next
  assume "i \<noteq> j"
  then show "laplacian E i j = - real (adjacency E i j)" by (simp add: laplacian_def)
next
  assume "\<forall>(a, b) \<in> set E. a \<noteq> b"
  then have "filter (\<lambda>e. e = (i, i)) E = []"
    by (auto simp: filter_empty_conv)
  then show "laplacian E i i = real (degree E i)"
    by (simp add: laplacian_def adjacency_def)
qed

text \<open>An example: the path \<open>0 - 1 - 2\<close> with force density \<open>2\<close> on both edges.\<close>

theorem uniform_edges_give_laplacian_witness:
  "StiffnessMatrixAssembler [1] [0, 2]
     [\<lparr>edge_vertices_ids = [0, 1], force_density = 2\<rparr>,
      \<lparr>edge_vertices_ids = [1, 2], force_density = 2\<rparr>]
     ([] :: natural_face list)
   = Inr \<lparr>sa_free = [1], sa_fixed = [0, 2],
          sa_mat = \<lparr>sp_shape = (3, 3),
                    sp_rows = [[2, - 2, 0], [- 2, 4, - 2], [0, - 2, 2]]\<rparr>\<rparr>
   \<and> laplacian [(0, 1), (1, 2)] 1 1 = 2"
proof -
  let ?es = "[\<lparr>edge_vertices_ids = [0, 1], force_density = 2\<rparr>,
              \<lparr>edge_vertices_ids = [1, 2], force_density = 2\<rparr>]"
  have a1: "map edge_vertices_ids ?es = map (\<lambda>(a, b). [a, b]) [(0, 1), (1, 2)]"
    by simp
  have a2: "\<forall>edge \<in> set ?es. force_density edge = 2"
    by simp
  have a3: "\<forall>(a, b) \<in> set [(0, 1), (1, 2)].
              a < length ([1] @ [0, 2 :: nat]) \<and> b < length ([1] @ [0, 2 :: nat])"
    by simp
  have a4: "\<forall>face \<in> set ([] :: natural_face list). len_face face \<noteq> 3 \<and> len_face face \<noteq> 4"
    by simp
  note t = uniform_edges_give_laplacian[OF a1 a2 a3 a4, of 1 1]
  have len: "length ([1] @ [0, 2 :: nat]) = 3" by simp
  have l: "map (\<lambda>i. map (\<lambda>j. 2 * laplacian [(0, 1), (1, 2)] i j) [0..<3]) [0..<3]
     = [[2, - 2, 0], [- 2, 4, - 2], [0, - 2, 2]]"
    by (simp add: laplacian_def degree_def adjacency_def upt_rec eval_nat_numeral)
  have d: "real (degree [(0, 1), (1, 2)] 1) = 2"
    by (simp add: degree_def)
  have n: "\<forall>(a, b) \<in> set [(0, 1), (1, 2 :: nat)]. a \<noteq> (b :: nat)"
    by simp
  from t have 1: "StiffnessMatrixAssembler [1] [0, 2] ?es ([] :: natural_face list)
      = Inr \<lparr>sa_free = [1], sa_fixed = [0, 2],
          sa_mat = \<lparr>sp_shape = (3, 3),
                    sp_rows = [[2, - 2, 0], [- 2, 4, - 2], [0, - 2, 2]]\<rparr>\<rparr>"
    unfolding len l by blast
  from t n d have 2: "laplacian [(0, 1), (1, 2)] 1 1 = 2"
    by metis
  from 1 2 show ?thesis by blast
qed

section \<open>Properties of the load assembler\<close>

lemma vadd_assoc: "vadd (vadd u v) w = vadd u (vadd v w)"
  by (cases u, cases v, cases w) (simp add: vadd_def)

lemma vadd_vzero [simp]: "vadd u vzero = u" "vadd vzero u = u"
  by (cases u, simp add: vadd_def vzero_def)+

lemma vsum_Nil [simp]: "vsum [] = vzero"
  by (simp add: vsum_def)

lemma vsum_Cons [simp]: "vsum (v # vs) = vadd v (vsum vs)"
  by (simp add: vsum_def)

text \<open>Scaling commutes with the rotation: the code scales first, the text rotates first.\<close>

lemma dot3_smul: "dot3 R (smul k v) = smul k (dot3 R v)"
  by (cases R, cases v) (simp add: dot3_def smul_def algebra_simps)

lemma vertex_load_share:
  "(if local then dot3 (Rot (frame face)) (smul (area face / real (len_face face)) l)
    else smul (area face / real (len_face face)) l) = load_share Rot local face l"
  by (simp add: load_share_def dot3_smul)

lemma add_rows_eq:
  assumes "\<forall>i \<in> set ids. i < length M"
  shows "add_rows M ids v
         = Inr (map (\<lambda>i. if i \<in> set ids then vadd (M ! i) v else M ! i) [0..<length M])"
  using assms by (simp add: add_rows_def)

lemma shares_at_Nil [simp]: "shares_at Rot local [] i = vzero"
  by (simp add: shares_at_def)

lemma shares_at_Cons:
  "shares_at Rot local (p # ps) i =
     (if i \<in> set (vertices_ids (fst p))
      then vadd (load_share Rot local (fst p) (snd p)) (shares_at Rot local ps i)
      else shares_at Rot local ps i)"
  by (simp add: shares_at_def)

lemma add_face_loads_eq:
  assumes "pairs_ok ps (length M)"
  shows "add_face_loads Rot local ps M
         = Inr (map (\<lambda>i. vadd (M ! i) (shares_at Rot local ps i)) [0..<length M])"
  using assms
proof (induction ps arbitrary: M)
  case Nil
  then show ?case by (simp add: map_nth)
next
  case (Cons p ps)
  obtain face l where p: "p = (face, l)" by (cases p)
  from Cons.prems p have ok: "len_face face \<noteq> 0"
    "\<forall>v \<in> set (vertices_ids face). v < length M" "pairs_ok ps (length M)"
    by (auto simp: pairs_ok_def)
  let ?v = "load_share Rot local face l"
  let ?M' = "map (\<lambda>i. if i \<in> set (vertices_ids face) then vadd (M ! i) ?v else M ! i)
               [0..<length M]"
  have len: "length ?M' = length M" by simp
  have step: "add_face_loads Rot local (p # ps) M = add_face_loads Rot local ps ?M'"
    using ok(1) add_rows_eq[OF ok(2), of ?v]
    by (simp add: p Let_def vertex_load_share)
  have "pairs_ok ps (length ?M')" using ok(3) by simp
  from Cons.IH[OF this]
  have "add_face_loads Rot local ps ?M'
        = Inr (map (\<lambda>i. vadd (?M' ! i) (shares_at Rot local ps i)) [0..<length M])"
    by simp
  also have "map (\<lambda>i. vadd (?M' ! i) (shares_at Rot local ps i)) [0..<length M]
        = map (\<lambda>i. vadd (M ! i) (shares_at Rot local (p # ps) i)) [0..<length M]"
    by (rule map_cong) (auto simp: shares_at_Cons p vadd_assoc)
  finally show ?case using step by simp
qed

lemma face_loads_step:
  assumes "loads_ok faces loads (length M)"
  shows "(case loads of None \<Rightarrow> Inr M
          | Some face_loads \<Rightarrow> add_face_loads Rot local (zip faces face_loads) M)
         = Inr (map (\<lambda>i. vadd (M ! i) (face_loads_at Rot local faces loads i)) [0..<length M])"
proof (cases loads)
  case None
  then show ?thesis by (simp add: face_loads_at_def map_nth)
next
  case (Some ls)
  then show ?thesis
    using assms add_face_loads_eq[of "zip faces ls" M Rot local]
    by (simp add: loads_ok_def face_loads_at_def)
qed

lemma update_eq:
  assumes "has_face_loads L"
    and "loads_ok faces (gfl L) (length (vertices_mat L))"
    and "loads_ok faces (lfl L) (length (vertices_mat L))"
  shows "update Rot faces L = Inr (L\<lparr>mat := spec_load_matrix Rot faces L\<rparr>)"
proof -
  let ?M0 = "vertices_mat L"
  let ?M1 = "map (\<lambda>i. vadd (?M0 ! i) (face_loads_at Rot False faces (gfl L) i))
               [0..<length ?M0]"
  have 1: "(case gfl L of None \<Rightarrow> Inr ?M0
            | Some face_loads \<Rightarrow> add_face_loads Rot False (zip faces face_loads) ?M0)
           = Inr ?M1"
    by (rule face_loads_step[OF assms(2)])
  have "loads_ok faces (lfl L) (length ?M1)" using assms(3) by simp
  from face_loads_step[OF this, of Rot True]
  have 2: "(case lfl L of None \<Rightarrow> Inr ?M1
            | Some face_loads \<Rightarrow> add_face_loads Rot True (zip faces face_loads) ?M1)
           = Inr (map (\<lambda>i. vadd (?M1 ! i) (face_loads_at Rot True faces (lfl L) i))
                    [0..<length ?M0])"
    by simp
  have 3: "map (\<lambda>i. vadd (?M1 ! i) (face_loads_at Rot True faces (lfl L) i)) [0..<length ?M0]
           = spec_load_matrix Rot faces L"
    unfolding spec_load_matrix_def by (rule map_cong) auto
  show ?thesis
    by (simp add: update_def Let_def 1 2 3 assms(1))
qed

text \<open>The constructor stores the loads it is given, sets the flag and updates once.\<close>

lemma constructor_eq:
  "LoadMatrixAssembler Rot n faces vertex_loads g l
   = update Rot faces \<lparr>vertices_mat = static_baseline n vertex_loads, gfl = g, lfl = l,
        has_face_loads = (g \<noteq> None \<or> l \<noteq> None), mat = static_baseline n vertex_loads\<rparr>"
  by (simp add: LoadMatrixAssembler_def load_mat_def static_baseline_def Let_def
      split: option.splits)

text \<open>
  C6. An assembler built without face loads holds the static vertex loads (zeros
  when none are given). An assembler built with global or local face loads on
  well-formed faces stores them, has its flag set, and holds the static vertex loads
  plus, at every vertex row of a loaded face, the face load times the face area over
  the number of face vertices, a local load being rotated into the global frame
  first. \<open>update\<close> leaves an assembler without face loads as it is, and sets the
  matrix of one with face loads to that same sum, taken over the faces as they are
  at the call.
\<close>

theorem load_update:
  "LoadMatrixAssembler Rot n faces vertex_loads None None
     = Inr \<lparr>vertices_mat = static_baseline n vertex_loads, gfl = None, lfl = None,
            has_face_loads = False, mat = static_baseline n vertex_loads\<rparr>
   \<and> ((g \<noteq> None \<or> l \<noteq> None)
        \<and> loads_ok faces g (length (static_baseline n vertex_loads))
        \<and> loads_ok faces l (length (static_baseline n vertex_loads)) \<longrightarrow>
      LoadMatrixAssembler Rot n faces vertex_loads g l
        = Inr \<lparr>vertices_mat = static_baseline n vertex_loads, gfl = g, lfl = l,
               has_face_loads = True,
               mat = spec_load_matrix Rot faces
                       \<lparr>vertices_mat = static_baseline n vertex_loads, gfl = g, lfl = l,
                        has_face_loads = True, mat = static_baseline n vertex_loads\<rparr>\<rparr>)
   \<and> (\<not> has_face_loads L \<longrightarrow> update Rot faces L = Inr L)
   \<and> (has_face_loads L \<and> loads_ok faces (gfl L) (length (vertices_mat L))
        \<and> loads_ok faces (lfl L) (length (vertices_mat L)) \<longrightarrow>
      update Rot faces L = Inr (L\<lparr>mat := spec_load_matrix Rot faces L\<rparr>))"
proof (intro conjI impI)
  show "LoadMatrixAssembler Rot n faces vertex_loads None None
     = Inr \<lparr>vertices_mat = static_baseline n vertex_loads, gfl = None, lfl = None,
            has_face_loads = False, mat = static_baseline n vertex_loads\<rparr>"
    by (simp add: LoadMatrixAssembler_def load_mat_def update_def static_baseline_def
        Let_def split: option.splits)
next
  let ?L = "\<lparr>vertices_mat = static_baseline n vertex_loads, gfl = g, lfl = l,
             has_face_loads = True, mat = static_baseline n vertex_loads\<rparr>"
  assume a: "(g \<noteq> None \<or> l \<noteq> None)
        \<and> loads_ok faces g (length (static_baseline n vertex_loads))
        \<and> loads_ok faces l (length (static_baseline n vertex_loads))"
  then have c: "LoadMatrixAssembler Rot n faces vertex_loads g l = update Rot faces ?L"
    by (simp add: constructor_eq)
  have "update Rot faces ?L = Inr (?L\<lparr>mat := spec_load_matrix Rot faces ?L\<rparr>)"
    using a by (intro update_eq) simp_all
  then show "LoadMatrixAssembler Rot n faces vertex_loads g l
        = Inr \<lparr>vertices_mat = static_baseline n vertex_loads, gfl = g, lfl = l,
               has_face_loads = True, mat = spec_load_matrix Rot faces ?L\<rparr>"
    by (simp add: c)
next
  assume "\<not> has_face_loads L"
  then show "update Rot faces L = Inr L" by (simp add: update_def)
next
  assume "has_face_loads L \<and> loads_ok faces (gfl L) (length (vertices_mat L))
        \<and> loads_ok faces (lfl L) (length (vertices_mat L))"
  then show "update Rot faces L = Inr (L\<lparr>mat := spec_load_matrix Rot faces L\<rparr>)"
    using update_eq by blast
qed

text \<open>
  An example: one triangle of area 3 on the vertices \<open>0 1 2\<close>, the global face load
  \<open>(0, 0, - 1)\<close> and the local face load \<open>(1, 0, 0)\<close>, with a face frame that is the
  global frame turned by a quarter about the third axis. The assembler is built, and
  updated once the area of the face has become 6; an assembler without face loads
  stays as it is.
\<close>

theorem load_update_witness:
  "LoadMatrixAssembler (\<lambda>fr. ((0, - 1, 0), (1, 0, 0), (0, 0, 1))) 3
     [\<lparr>vertices_ids = [0, 1, 2], force_densities = [1, 1, 1], area = 3,
       frame = (vzero, vzero, vzero)\<rparr>]
     (Some [(0, 0, 0), (0, 0, 0), (5, 0, 0)]) (Some [(0, 0, - 1)]) (Some [(1, 0, 0)])
   = Inr \<lparr>vertices_mat = [(0, 0, 0), (0, 0, 0), (5, 0, 0)], gfl = Some [(0, 0, - 1)],
          lfl = Some [(1, 0, 0)], has_face_loads = True,
          mat = [(0, 1, - 1), (0, 1, - 1), (5, 1, - 1)]\<rparr>
   \<and> update (\<lambda>fr. ((0, - 1, 0), (1, 0, 0), (0, 0, 1)))
     [\<lparr>vertices_ids = [0, 1, 2], force_densities = [1, 1, 1], area = 6,
       frame = (vzero, vzero, vzero)\<rparr>]
     \<lparr>vertices_mat = [(0, 0, 0), (0, 0, 0), (5, 0, 0)], gfl = Some [(0, 0, - 1)],
      lfl = Some [(1, 0, 0)], has_face_loads = True,
      mat = [(0, 1, - 1), (0, 1, - 1), (5, 1, - 1)]\<rparr>
   = Inr \<lparr>vertices_mat = [(0, 0, 0), (0, 0, 0), (5, 0, 0)], gfl = Some [(0, 0, - 1)],
          lfl = Some [(1, 0, 0)], has_face_loads = True,
          mat = [(0, 2, - 2), (0, 2, - 2), (5, 2, - 2)]\<rparr>
   \<and> update (\<lambda>fr. ((0, - 1, 0), (1, 0, 0), (0, 0, 1)))
     [\<lparr>vertices_ids = [0, 1, 2], force_densities = [1, 1, 1], area = 6,
       frame = (vzero, vzero, vzero)\<rparr>]
     \<lparr>vertices_mat = [(0, 0, 0), (0, 0, 0), (5, 0, 0)], gfl = None,
      lfl = None, has_face_loads = False,
      mat = [(0, 0, 0), (0, 0, 0), (5, 0, 0)]\<rparr>
   = Inr \<lparr>vertices_mat = [(0, 0, 0), (0, 0, 0), (5, 0, 0)], gfl = None,
      lfl = None, has_face_loads = False,
      mat = [(0, 0, 0), (0, 0, 0), (5, 0, 0)]\<rparr>"
proof -
  let ?R = "\<lambda>fr :: frame. ((0, - 1, 0), (1, 0, 0), (0, 0, 1)) :: mat3"
  let ?f = "\<lparr>vertices_ids = [0, 1, 2], force_densities = [1, 1, 1], area = 3,
       frame = (vzero, vzero, vzero)\<rparr>"
  let ?f' = "\<lparr>vertices_ids = [0, 1, 2], force_densities = [1, 1, 1], area = 6,
       frame = (vzero, vzero, vzero)\<rparr>"
  let ?vl = "Some [(0, 0, 0), (0, 0, 0), (5, 0, 0)] :: arr3 option"
  let ?g = "Some [(0, 0, - 1)] :: arr3 option"
  let ?l = "Some [(1, 0, 0)] :: arr3 option"
  let ?K = "\<lparr>vertices_mat = [(0, 0, 0), (0, 0, 0), (5, 0, 0)], gfl = ?g,
      lfl = ?l, has_face_loads = True,
      mat = [(0, 0, 0), (0, 0, 0), (5, 0, 0)]\<rparr>"
  let ?L = "\<lparr>vertices_mat = [(0, 0, 0), (0, 0, 0), (5, 0, 0)], gfl = ?g,
      lfl = ?l, has_face_loads = True,
      mat = [(0, 1, - 1), (0, 1, - 1), (5, 1, - 1)]\<rparr>"
  let ?N = "\<lparr>vertices_mat = [(0, 0, 0), (0, 0, 0), (5, 0, 0)], gfl = None,
      lfl = None, has_face_loads = False,
      mat = [(0, 0, 0), (0, 0, 0), (5, 0, 0)]\<rparr>"
  have sb: "static_baseline 3 ?vl = [(0, 0, 0), (0, 0, 0), (5, 0, 0)]"
    by (simp add: static_baseline_def)
  have ok0: "(?g \<noteq> None \<or> ?l \<noteq> None)
        \<and> loads_ok [?f] ?g (length (static_baseline 3 ?vl))
        \<and> loads_ok [?f] ?l (length (static_baseline 3 ?vl))"
    by (simp add: sb loads_ok_def pairs_ok_def len_face_def)
  have ok: "has_face_loads ?L \<and> loads_ok [?f'] (gfl ?L) (length (vertices_mat ?L))
        \<and> loads_ok [?f'] (lfl ?L) (length (vertices_mat ?L))"
    by (simp add: loads_ok_def pairs_ok_def len_face_def)
  have no: "\<not> has_face_loads ?N"
    by simp
  have m0: "spec_load_matrix ?R [?f] ?K = [(0, 1, - 1), (0, 1, - 1), (5, 1, - 1)]"
    by (simp add: spec_load_matrix_def face_loads_at_def shares_at_def load_share_def
        len_face_def vadd_def smul_def dot3_def vzero_def vsum_def upt_rec eval_nat_numeral)
  have m: "spec_load_matrix ?R [?f'] ?L = [(0, 2, - 2), (0, 2, - 2), (5, 2, - 2)]"
    by (simp add: spec_load_matrix_def face_loads_at_def shares_at_def load_share_def
        len_face_def vadd_def smul_def dot3_def vzero_def vsum_def upt_rec eval_nat_numeral)
  note t0 = load_update[of ?R 3 "[?f]" ?vl ?g ?l ?N]
  note t1 = load_update[of ?R 3 "[?f']" ?vl ?g ?l ?L]
  note t2 = load_update[of ?R 3 "[?f']" ?vl ?g ?l ?N]
  have 1: "LoadMatrixAssembler ?R 3 [?f] ?vl ?g ?l
        = Inr \<lparr>vertices_mat = static_baseline 3 ?vl, gfl = ?g, lfl = ?l,
               has_face_loads = True,
               mat = spec_load_matrix ?R [?f]
                       \<lparr>vertices_mat = static_baseline 3 ?vl, gfl = ?g, lfl = ?l,
                        has_face_loads = True, mat = static_baseline 3 ?vl\<rparr>\<rparr>"
    using t0 ok0 by blast
  have 2: "update ?R [?f'] ?L = Inr (?L\<lparr>mat := spec_load_matrix ?R [?f'] ?L\<rparr>)"
    using t1 ok by blast
  have 3: "update ?R [?f'] ?N = Inr ?N"
    using t2 no by blast
  from 1[unfolded sb, unfolded m0] have 1: "LoadMatrixAssembler ?R 3 [?f] ?vl ?g ?l = Inr ?L" .
  from 2 have 2: "update ?R [?f'] ?L
      = Inr \<lparr>vertices_mat = [(0, 0, 0), (0, 0, 0), (5, 0, 0)], gfl = ?g, lfl = ?l,
             has_face_loads = True, mat = [(0, 2, - 2), (0, 2, - 2), (5, 2, - 2)]\<rparr>"
    unfolding m by simp
  from 1 2 3 show ?thesis
    by blast
qed

section \<open>Properties of the inner solve\<close>

text \<open>What a successful solve went through.\<close>

lemma nfd_solve_Inr:
  assumes "nfd_solve api h xyz fixed faces edges loads s_calc = Inr out"
  obtains stiff Di Df loads' b x a r where
    "StiffnessMatrixAssembler (free_of (length (h ! xyz)) fixed) fixed edges faces = Inr stiff"
    "free_matrix stiff = Inr Di"
    "fixed_matrix stiff = Inr Df"
    "update (Rotation_from_frame api) faces loads = Inr loads'"
    "rhs (mat loads') Df ((h @ [h ! xyz]) ! xyz) (free_of (length (h ! xyz)) fixed) fixed = Inr b"
    "spsolve api Di b = Inr x"
    "assign_rows (h ! xyz) (free_of (length (h ! xyz)) fixed) x = Inr a"
    "residuals (mat loads') (matrix stiff) ((h @ [a]) ! xyz) = Inr r"
    "out = \<lparr>sr_heap = h @ [a], sr_xyz = length h, sr_r = r,
            sr_s = get_stresses api (map (\<lambda>face. face_update_xyz api face a) faces) a s_calc,
            sr_f = get_forces api (map (\<lambda>edge. edge_update_xyz api edge a) edges) a,
            sr_faces = map (\<lambda>face. face_update_xyz api face a) faces,
            sr_edges = map (\<lambda>edge. edge_update_xyz api edge a) edges,
            sr_loads = loads'\<rparr>"
  using assms unfolding nfd_solve_def Let_def
  by (auto split: sum.splits)

text \<open>Assigning rows changes the named rows only.\<close>

lemma fold_update_pairs_length [simp]:
  "length (fold (\<lambda>(i, v) a'. a'[i := v]) ps a) = length a"
  by (induction ps arbitrary: a) auto

lemma fold_update_pairs_other:
  "i \<notin> fst ` set ps \<Longrightarrow> fold (\<lambda>(i, v) a'. a'[i := v]) ps a ! i = a ! i"
  by (induction ps arbitrary: a) auto

lemma fold_update_const_length [simp]:
  "length (fold (\<lambda>i a'. a'[i := c]) idx a) = length a"
  by (induction idx arbitrary: a) auto

lemma fold_update_const_other:
  "i \<notin> set idx \<Longrightarrow> fold (\<lambda>i a'. a'[i := c]) idx a ! i = a ! i"
  by (induction idx arbitrary: a) auto

lemma assign_rows_frame:
  assumes "assign_rows a idx x = Inr a'"
  shows "length a' = length a" and "i \<notin> set idx \<Longrightarrow> a' ! i = a ! i"
proof -
  show "length a' = length a"
    using assms by (auto simp: assign_rows_def split: if_splits)
  assume i: "i \<notin> set idx"
  then have "i \<notin> fst ` set (zip idx x)"
    by (auto dest: set_zip_leftD)
  then show "a' ! i = a ! i"
    using assms i
    by (auto simp: assign_rows_def fold_update_pairs_other fold_update_const_other
        split: if_splits)
qed

lemma fold_update_pairs_nth:
  assumes "distinct idx" "length x = length idx" "\<forall>i \<in> set idx. i < length a"
  shows "map (\<lambda>i. fold (\<lambda>(i, v) a'. a'[i := v]) (zip idx x) a ! i) idx = x"
  using assms
proof (induction idx arbitrary: x a)
  case Nil
  then show ?case by simp
next
  case (Cons i idx)
  from Cons.prems(2) obtain v x' where x: "x = v # x'" and len: "length x' = length idx"
    by (cases x) auto
  have ni: "i \<notin> fst ` set (zip idx x')"
    using Cons.prems(1) by (auto dest: set_zip_leftD)
  have "fold (\<lambda>(i, v) a'. a'[i := v]) (zip idx x') (a[i := v]) ! i = a[i := v] ! i"
    by (rule fold_update_pairs_other[OF ni])
  also have "\<dots> = v" using Cons.prems(3) by simp
  finally have hd: "fold (\<lambda>(i, v) a'. a'[i := v]) (zip idx x') (a[i := v]) ! i = v" .
  have "map (\<lambda>j. fold (\<lambda>(i, v) a'. a'[i := v]) (zip idx x') (a[i := v]) ! j) idx = x'"
    using Cons.IH[of x' "a[i := v]"] Cons.prems(1,3) len by simp
  then show ?case using hd by (simp add: x)
qed

lemma assign_rows_read_back:
  assumes "assign_rows a idx x = Inr a'" "distinct idx" "length x = length idx"
  shows "take_rows a' idx = Inr x"
proof -
  from assms(1) have r: "\<forall>i \<in> set idx. i < length a"
    by (auto simp: assign_rows_def split: if_splits)
  with assms have a': "a' = fold (\<lambda>(i, v) a'. a'[i := v]) (zip idx x) a"
    by (auto simp: assign_rows_def split: if_splits)
  show ?thesis
    using r fold_update_pairs_nth[OF assms(2) assms(3) r]
    by (simp add: take_rows_def a')
qed

lemma free_of_props:
  "distinct (free_of v fixed)" "set (free_of v fixed) = {0..<v} - set fixed"
  by (auto simp: free_of_def)

text \<open>The store after a solve: one new array, the old ones untouched.\<close>

lemma heap_after:
  assumes "xyz < length h"
  shows "(h @ [a]) ! xyz = h ! xyz" "(h @ [a]) ! length h = a" "take (length h) (h @ [a]) = h"
  using assms by (simp_all add: nth_append)

text \<open>The example, step by step.\<close>

lemma example_stiffness:
  assumes "vertices_ids fc = [0, 1, 2]" "force_densities fc = [1, 0, 1]"
  shows "StiffnessMatrixAssembler [1] [0, 2] [example_edge] [fc]
   = Inr \<lparr>sa_free = [1], sa_fixed = [0, 2],
          sa_mat = \<lparr>sp_shape = (3, 3),
                    sp_rows = [[2, - 1, - 1], [- 1, 2, - 1], [- 1, - 1, 2]]\<rparr>\<rparr>"
  by (simp add: StiffnessMatrixAssembler_def add_faces_single len_face_def add_tri_face_def
      add_edges_single add_edge_def coo_empty_def coo_matrix_def triplets_def entry_sum_def
      example_edge_def assms eval_nat_numeral upt_rec Let_def)

lemma example_blocks:
  "ix \<lparr>sp_shape = (3, 3), sp_rows = [[2, - 1, - 1], [- 1, 2, - 1], [- 1, - 1, 2]]\<rparr> [1] [1]
     = Inr \<lparr>sp_shape = (1, 1), sp_rows = [[2]]\<rparr>"
  "ix \<lparr>sp_shape = (3, 3), sp_rows = [[2, - 1, - 1], [- 1, 2, - 1], [- 1, - 1, 2]]\<rparr> [1] [0, 2]
     = Inr \<lparr>sp_shape = (1, 2), sp_rows = [[- 1, - 1]]\<rparr>"
  by (simp_all add: ix_def)

lemma example_rhs:
  "rhs [(0, 0, 0), (0, 0, 2), (0, 0, 0)] \<lparr>sp_shape = (1, 2), sp_rows = [[- 1, - 1]]\<rparr>
     [(0, 0, 0), (1, 0, z), (2, 0, 0)] [1] [0, 2] = Inr [(2, 0, 2)]"
  by (simp add: rhs_def take_rows_def sp_dot_def np_sub_def
      vsub_def vadd_def smul_def vzero_def vsum_def)

lemma example_solve_one:
  "solve_one \<lparr>sp_shape = (1, 1), sp_rows = [[2]]\<rparr> [(2, 0, 2)] = Inr [(1, 0, 1)]"
  by (simp add: solve_one_def smul_def)

lemma example_assign:
  "assign_rows [(0, 0, 0), (1, 0, z), (2, 0, 0)] [1] [(1, 0, 1)]
     = Inr [(0, 0, 0), (1, 0, 1), (2, 0, 0)]"
  by (simp add: assign_rows_def)

lemma example_residuals:
  "residuals [(0, 0, 0), (0, 0, 2), (0, 0, 0)]
     \<lparr>sp_shape = (3, 3), sp_rows = [[2, - 1, - 1], [- 1, 2, - 1], [- 1, - 1, 2]]\<rparr>
     [(0, 0, 0), (1, 0, z), (2, 0, 0)] = Inr [(3, 0, z), (0, 0, 2 - 2 * z), (- 3, 0, z)]"
  by (simp add: residuals_def sp_dot_def np_sub_def
      vsub_def vadd_def smul_def vzero_def vsum_def)

lemma example_free:
  "free_of (length [a, b, c]) [0, 2] = [1]" "free_of (Suc (Suc (Suc 0))) [0, 2] = [1]"
  by (simp_all add: free_of_def upt_rec eval_nat_numeral)

lemma example_solve:
  assumes "xyz < length h" "h ! xyz = [(0, 0, 0), (1, 0, z), (2, 0, 0)]"
    and "vertices_ids fc = [0, 1, 2]" "force_densities fc = [1, 0, 1]" "s_calc \<noteq> 0"
  shows "nfd_solve example_api h xyz [0, 2] [fc] [example_edge] example_loads s_calc
   = Inr \<lparr>sr_heap = h @ [[(0, 0, 0), (1, 0, 1), (2, 0, 0)]], sr_xyz = length h,
          sr_r = [(3, 0, z), (0, 0, 2 - 2 * z), (- 3, 0, z)],
          sr_s = Some [(0, 1, 0)], sr_f = [1],
          sr_faces = [fc\<lparr>area := 3\<rparr>], sr_edges = [example_edge],
          sr_loads = example_loads\<rparr>"
proof -
  have u: "update (Rotation_from_frame example_api) [fc] example_loads = Inr example_loads"
    by (simp add: update_def example_loads_def)
  have m: "mat example_loads = [(0, 0, 0), (0, 0, 2), (0, 0, 0)]"
    by (simp add: example_loads_def)
  have s: "spsolve example_api = solve_one"
    by (simp add: example_api_def)
  note steps = example_stiffness[OF assms(3,4)] example_blocks example_rhs example_assign
    example_solve_one example_residuals
  have e: "get_stresses example_api [fc\<lparr>area := 3\<rparr>] [(0, 0, 0), (1, 0, 1), (2, 0, 0)] s_calc
             = Some [(0, 1, 0)]"
    "get_forces example_api [example_edge] [(0, 0, 0), (1, 0, 1), (2, 0, 0)] = [1]"
    "face_update_xyz example_api fc [(0, 0, 0), (1, 0, 1), (2, 0, 0)] = fc\<lparr>area := 3\<rparr>"
    "edge_update_xyz example_api example_edge [(0, 0, 0), (1, 0, 1), (2, 0, 0)] = example_edge"
    using assms(5)
    by (simp_all add: example_api_def example_edge_def vsum_def vadd_def vzero_def)
  have hp: "(h @ [h ! xyz]) ! xyz = h ! xyz" "(h @ [h ! xyz]) ! length h = h ! xyz"
    using assms(1) by (simp_all add: nth_append)
  show ?thesis
    unfolding nfd_solve_def Let_def hp assms(2)
    by (simp add: example_free[unfolded One_nat_def] steps[unfolded One_nat_def] free_matrix_def fixed_matrix_def
        matrix_def u m s e assms(1,2) nth_append)
qed

text \<open>
  C10. A successful solve leaves every array of the store as it was, the caller's
  coordinate array among them, and returns a new array of the same length in which
  every row of a fixed vertex equals the row of the input.
\<close>

theorem solve_frame:
  assumes "nfd_solve api h xyz fixed faces edges loads s_calc = Inr out"
    and "xyz < length h"
  shows "take (length h) (sr_heap out) = h
       \<and> sr_heap out ! xyz = h ! xyz
       \<and> sr_xyz out = length h
       \<and> length (sr_heap out) = Suc (length h)
       \<and> length (sr_heap out ! sr_xyz out) = length (h ! xyz)
       \<and> (\<forall>i. i \<in> set fixed \<longrightarrow> sr_heap out ! sr_xyz out ! i = h ! xyz ! i)"
proof -
  from assms(1) obtain x a where
    a: "assign_rows (h ! xyz) (free_of (length (h ! xyz)) fixed) x = Inr a"
    and h': "sr_heap out = h @ [a]" and r: "sr_xyz out = length h"
    by (rule nfd_solve_Inr) simp
  have "i \<notin> set (free_of (length (h ! xyz)) fixed)" if "i \<in> set fixed" for i
    using that by (simp add: free_of_props)
  then have "a ! i = h ! xyz ! i" if "i \<in> set fixed" for i
    using that assign_rows_frame(2)[OF a] by blast
  moreover have "length a = length (h ! xyz)"
    by (rule assign_rows_frame(1)[OF a])
  ultimately show ?thesis
    using assms(2) by (simp add: h' r nth_append)
qed

theorem solve_frame_witness:
  "nfd_solve example_api [example_xyz] 0 [0, 2] [example_face] [example_edge] example_loads 1
     = Inr \<lparr>sr_heap = [example_xyz, [(0, 0, 0), (1, 0, 1), (2, 0, 0)]], sr_xyz = 1,
            sr_r = [(3, 0, 0), (0, 0, 2), (- 3, 0, 0)],
            sr_s = Some [(0, 1, 0)], sr_f = [1],
            sr_faces = [example_face\<lparr>area := 3\<rparr>], sr_edges = [example_edge],
            sr_loads = example_loads\<rparr>
   \<and> (0 :: nat) < length [example_xyz]
   \<and> take (length [example_xyz]) [example_xyz, [(0, 0, 0), (1, 0, 1), (2, 0, 0)]]
       = [example_xyz]
   \<and> [example_xyz, [(0, 0, 0), (1, 0, 1), (2, 0, 0)]] ! 0 = [example_xyz] ! 0
   \<and> [example_xyz, [(0, 0, 0), (1, 0, 1), (2, 0, 0)]] ! 1 ! 0 = [example_xyz] ! 0 ! 0
   \<and> [example_xyz, [(0, 0, 0), (1, 0, 1), (2, 0, 0)]] ! 1 ! 2 = [example_xyz] ! 0 ! 2
   \<and> [example_xyz, [(0, 0, 0), (1, 0, 1), (2, 0, 0)]] ! 1 ! 1 \<noteq> [example_xyz] ! 0 ! 1"
proof -
  let ?out = "\<lparr>sr_heap = [example_xyz, [(0, 0, 0), (1, 0, 1), (2, 0, 0)]], sr_xyz = 1,
            sr_r = [(3, 0, 0), (0, 0, 2), (- 3, 0, 0)],
            sr_s = Some [(0, 1, 0)], sr_f = [1],
            sr_faces = [example_face\<lparr>area := 3\<rparr>], sr_edges = [example_edge],
            sr_loads = example_loads\<rparr>"
  have s: "nfd_solve example_api [example_xyz] 0 [0, 2] [example_face] [example_edge]
             example_loads 1 = Inr ?out"
    using example_solve[of 0 "[example_xyz]" 0 example_face 1]
    by (simp add: example_xyz_def example_face_def)
  have l: "(0 :: nat) < length [example_xyz]"
    by simp
  have n: "[example_xyz, [(0, 0, 0), (1, 0, 1), (2, 0, 0)]] ! 1 ! 1 \<noteq> [example_xyz] ! 0 ! 1"
    by (simp add: example_xyz_def)
  note t = solve_frame[OF s l]
  have p: "sr_heap ?out = [example_xyz, [(0, 0, 0), (1, 0, 1), (2, 0, 0)]]" "sr_xyz ?out = 1"
    by simp_all
  have m: "(0 :: nat) \<in> set [0, 2]" "(2 :: nat) \<in> set [0, 2]"
    by simp_all
  from t s l n m show ?thesis
    unfolding p by blast
qed

text \<open>
  C4. The residuals a successful solve returns are the refreshed load matrix minus
  the full stiffness matrix of this solve times the coordinates that were passed in.
\<close>

theorem solve_residuals:
  assumes "nfd_solve api h xyz fixed faces edges loads s_calc = Inr out"
    and "xyz < length h"
  shows "\<exists>stiff Kx.
           StiffnessMatrixAssembler (free_of (length (h ! xyz)) fixed) fixed edges faces
             = Inr stiff
         \<and> update (Rotation_from_frame api) faces loads = Inr (sr_loads out)
         \<and> sp_dot (matrix stiff) (h ! xyz) = Inr Kx
         \<and> np_sub (mat (sr_loads out)) Kx = Inr (sr_r out)"
proof -
  from assms(1) obtain stiff loads' a r where
    1: "StiffnessMatrixAssembler (free_of (length (h ! xyz)) fixed) fixed edges faces = Inr stiff"
    and 2: "update (Rotation_from_frame api) faces loads = Inr loads'"
    and 3: "residuals (mat loads') (matrix stiff) ((h @ [a]) ! xyz) = Inr r"
    and 4: "sr_loads out = loads'" "sr_r out = r"
    by (rule nfd_solve_Inr) simp
  from 3 assms(2) have "residuals (mat loads') (matrix stiff) (h ! xyz) = Inr r"
    by (simp add: nth_append)
  then obtain Kx where "sp_dot (matrix stiff) (h ! xyz) = Inr Kx" "np_sub (mat loads') Kx = Inr r"
    by (auto simp: residuals_def split: sum.splits)
  with 1 2 4 show ?thesis
    by auto
qed

text \<open>
  In the example the residuals are those of the coordinates passed in, not those of
  the coordinates the solve returns.
\<close>

theorem solve_residuals_witness:
  "nfd_solve example_api [example_xyz] 0 [0, 2] [example_face] [example_edge] example_loads 1
     = Inr \<lparr>sr_heap = [example_xyz, [(0, 0, 0), (1, 0, 1), (2, 0, 0)]], sr_xyz = 1,
            sr_r = [(3, 0, 0), (0, 0, 2), (- 3, 0, 0)],
            sr_s = Some [(0, 1, 0)], sr_f = [1],
            sr_faces = [example_face\<lparr>area := 3\<rparr>], sr_edges = [example_edge],
            sr_loads = example_loads\<rparr>
   \<and> (0 :: nat) < length [example_xyz]
   \<and> sp_dot \<lparr>sp_shape = (3, 3),
                sp_rows = [[2, - 1, - 1], [- 1, 2, - 1], [- 1, - 1, 2]]\<rparr> example_xyz
       = Inr [(- 3, 0, 0), (0, 0, 0), (3, 0, 0)]
   \<and> np_sub (mat example_loads) [(- 3, 0, 0), (0, 0, 0), (3, 0, 0)]
       = Inr [(3, 0, 0), (0, 0, 2), (- 3, 0, 0)]
   \<and> residuals (mat example_loads)
         \<lparr>sp_shape = (3, 3), sp_rows = [[2, - 1, - 1], [- 1, 2, - 1], [- 1, - 1, 2]]\<rparr>
         [(0, 0, 0), (1, 0, 1), (2, 0, 0)]
       = Inr [(3, 0, 1), (0, 0, 0), (- 3, 0, 1)]"
proof -
  let ?out = "\<lparr>sr_heap = [example_xyz, [(0, 0, 0), (1, 0, 1), (2, 0, 0)]], sr_xyz = 1,
            sr_r = [(3, 0, 0), (0, 0, 2), (- 3, 0, 0)],
            sr_s = Some [(0, 1, 0)], sr_f = [1],
            sr_faces = [example_face\<lparr>area := 3\<rparr>], sr_edges = [example_edge],
            sr_loads = example_loads\<rparr>"
  let ?K = "\<lparr>sp_shape = (3, 3),
             sp_rows = [[2, - 1, - 1], [- 1, 2, - 1], [- 1, - 1, 2 :: real]]\<rparr>"
  have s: "nfd_solve example_api [example_xyz] 0 [0, 2] [example_face] [example_edge]
             example_loads 1 = Inr ?out"
    using example_solve[of 0 "[example_xyz]" 0 example_face 1]
    by (simp add: example_xyz_def example_face_def)
  have l: "(0 :: nat) < length [example_xyz]"
    by simp
  from solve_residuals[OF s l] obtain stiff Kx where
    1: "StiffnessMatrixAssembler (free_of (length ([example_xyz] ! 0)) [0, 2]) [0, 2]
          [example_edge] [example_face] = Inr stiff"
    and 2: "sp_dot (matrix stiff) ([example_xyz] ! 0) = Inr Kx"
    and 3: "np_sub (mat example_loads) Kx = Inr [(3, 0, 0), (0, 0, 2), (- 3, 0, 0)]"
    by (elim exE conjE) (rule that, assumption, assumption, simp)
  have f: "free_of (length ([example_xyz] ! 0)) [0, 2] = [1]"
    by (simp add: example_xyz_def example_free[unfolded One_nat_def])
  have "StiffnessMatrixAssembler [1] [0, 2] [example_edge] [example_face]
          = Inr \<lparr>sa_free = [1], sa_fixed = [0, 2], sa_mat = ?K\<rparr>"
    by (rule example_stiffness) (simp_all add: example_face_def)
  with 1 have k: "matrix stiff = ?K"
    unfolding f by (auto simp: matrix_def)
  have d: "sp_dot ?K example_xyz = Inr [(- 3, 0, 0), (0, 0, 0), (3, 0, 0)]"
    by (simp add: sp_dot_def example_xyz_def vsum_def vadd_def smul_def vzero_def)
  with 2 have kx: "Kx = [(- 3, 0, 0), (0, 0, 0), (3, 0, 0)]"
    unfolding k by simp
  have 4: "np_sub (mat example_loads) [(- 3, 0, 0), (0, 0, 0), (3, 0, 0)]
       = Inr [(3, 0, 0), (0, 0, 2), (- 3, 0, 0)]"
    using 3 unfolding kx by simp
  have 5: "residuals (mat example_loads) ?K [(0, 0, 0), (1, 0, 1), (2, 0, 0)]
       = Inr [(3, 0, 1), (0, 0, 0), (- 3, 0, 1)]"
    using example_residuals[of 1] by (simp add: example_loads_def)
  from s l d 4 5 show ?thesis
    by blast
qed

lemma assembler_fields:
  assumes "StiffnessMatrixAssembler free fixed edges faces = Inr stiff"
  shows "sa_free stiff = free" "sa_fixed stiff = fixed"
  using assms
  by (auto simp: StiffnessMatrixAssembler_def Let_def split: sum.splits)

lemma rhs_Inr:
  assumes "rhs p Df xyz free fixed = Inr b"
  obtains p_free x_fixed Kfx where
    "take_rows p free = Inr p_free" "take_rows xyz fixed = Inr x_fixed"
    "sp_dot Df x_fixed = Inr Kfx" "np_sub p_free Kfx = Inr b"
  using assms by (auto simp: rhs_def split: sum.splits)

lemma take_rows_cong:
  assumes "take_rows a idx = Inr x" "length a' = length a" "\<forall>i \<in> set idx. a' ! i = a ! i"
  shows "take_rows a' idx = Inr x"
  using assms by (auto simp: take_rows_def split: if_splits)

lemma sp_dot_length: "sp_dot A x = Inr b \<Longrightarrow> length x = snd (sp_shape A)"
  by (auto simp: sp_dot_def split: if_splits)

lemma ix_shape: "ix M rs cs = Inr B \<Longrightarrow> sp_shape B = (length rs, length cs)"
  by (auto simp: ix_def split: if_splits)

lemma solve_one_solves:
  assumes "solve_one A b = Inr x"
  shows "sp_dot A x = Inr b"
proof -
  from assms have sh: "sp_shape A = (1, 1)"
    by (auto simp: solve_one_def split: if_splits)
  from assms sh obtain k where k: "sp_rows A = [[k]]"
    by (auto simp: solve_one_def split: list.splits)
  from assms sh k obtain v where v: "b = [v]"
    by (auto simp: solve_one_def split: list.splits)
  from assms sh k v have k0: "k \<noteq> 0" and x: "x = [smul (1 / k) v]"
    by (auto simp: solve_one_def split: if_splits)
  obtain v1 v2 v3 where "v = (v1, v2, v3)"
    by (cases v)
  then show ?thesis
    using k0 by (simp add: sp_dot_def sh k v x smul_def vadd_def vzero_def)
qed

text \<open>
  C5. Provided the linear solver returns a solution of the system it is given, the
  free rows of the coordinates a successful solve returns satisfy the system of the
  free-free block of the stiffness matrix assembled in this solve, with the free rows
  of the refreshed load matrix minus the free-fixed block times the fixed rows on the
  right; the fixed rows are those of the input. Every face and every edge is updated
  with the new coordinates, and the stresses and forces are computed from the updated
  elements.
\<close>

theorem solve_free_system:
  assumes "nfd_solve api h xyz fixed faces edges loads s_calc = Inr out"
    and "xyz < length h"
    and "\<forall>A b x. spsolve api A b = Inr x \<longrightarrow> sp_dot A x = Inr b"
  shows "\<exists>stiff K_free K_free_fixed P_free x_fixed Kx b x_free.
           StiffnessMatrixAssembler (free_of (length (h ! xyz)) fixed) fixed edges faces
             = Inr stiff
         \<and> ix (matrix stiff) (free_of (length (h ! xyz)) fixed)
               (free_of (length (h ! xyz)) fixed) = Inr K_free
         \<and> ix (matrix stiff) (free_of (length (h ! xyz)) fixed) fixed = Inr K_free_fixed
         \<and> update (Rotation_from_frame api) faces loads = Inr (sr_loads out)
         \<and> take_rows (mat (sr_loads out)) (free_of (length (h ! xyz)) fixed) = Inr P_free
         \<and> take_rows (h ! xyz) fixed = Inr x_fixed
         \<and> take_rows (sr_heap out ! sr_xyz out) fixed = Inr x_fixed
         \<and> sp_dot K_free_fixed x_fixed = Inr Kx
         \<and> np_sub P_free Kx = Inr b
         \<and> take_rows (sr_heap out ! sr_xyz out) (free_of (length (h ! xyz)) fixed)
             = Inr x_free
         \<and> sp_dot K_free x_free = Inr b
         \<and> sr_faces out
             = map (\<lambda>face. face_update_xyz api face (sr_heap out ! sr_xyz out)) faces
         \<and> sr_edges out
             = map (\<lambda>edge. edge_update_xyz api edge (sr_heap out ! sr_xyz out)) edges
         \<and> sr_s out = get_stresses api (sr_faces out) (sr_heap out ! sr_xyz out) s_calc
         \<and> sr_f out = get_forces api (sr_edges out) (sr_heap out ! sr_xyz out)"
proof -
  let ?free = "free_of (length (h ! xyz)) fixed"
  from assms(1) obtain stiff Di Df loads' b x a r where
    st: "StiffnessMatrixAssembler ?free fixed edges faces = Inr stiff"
    and di: "free_matrix stiff = Inr Di"
    and df: "fixed_matrix stiff = Inr Df"
    and up: "update (Rotation_from_frame api) faces loads = Inr loads'"
    and rh: "rhs (mat loads') Df ((h @ [h ! xyz]) ! xyz) ?free fixed = Inr b"
    and so: "spsolve api Di b = Inr x"
    and as: "assign_rows (h ! xyz) ?free x = Inr a"
    and out: "out = \<lparr>sr_heap = h @ [a], sr_xyz = length h, sr_r = r,
            sr_s = get_stresses api (map (\<lambda>face. face_update_xyz api face a) faces) a s_calc,
            sr_f = get_forces api (map (\<lambda>edge. edge_update_xyz api edge a) edges) a,
            sr_faces = map (\<lambda>face. face_update_xyz api face a) faces,
            sr_edges = map (\<lambda>edge. edge_update_xyz api edge a) edges,
            sr_loads = loads'\<rparr>"
    by (rule nfd_solve_Inr)
  have new: "sr_heap out ! sr_xyz out = a"
    by (simp add: out)
  from di df have di': "ix (matrix stiff) ?free ?free = Inr Di"
    and df': "ix (matrix stiff) ?free fixed = Inr Df"
    by (simp_all add: free_matrix_def fixed_matrix_def matrix_def assembler_fields[OF st])
  from rh assms(2) have "rhs (mat loads') Df (h ! xyz) ?free fixed = Inr b"
    by (simp add: nth_append)
  then obtain p_free x_fixed Kfx where
    pf: "take_rows (mat loads') ?free = Inr p_free"
    and xf: "take_rows (h ! xyz) fixed = Inr x_fixed"
    and kx: "sp_dot Df x_fixed = Inr Kfx"
    and b: "np_sub p_free Kfx = Inr b"
    by (rule rhs_Inr)
  have "\<forall>i \<in> set fixed. a ! i = h ! xyz ! i"
    using assign_rows_frame(2)[OF as] by (simp add: free_of_props)
  with xf have xf': "take_rows a fixed = Inr x_fixed"
    using assign_rows_frame(1)[OF as] by (auto intro: take_rows_cong[of "h ! xyz"])
  from so assms(3) have sol: "sp_dot Di x = Inr b"
    by blast
  have "length x = length ?free"
    using sp_dot_length[OF sol] ix_shape[OF di'] by simp
  with as have rb: "take_rows a ?free = Inr x"
    by (auto intro: assign_rows_read_back[of "h ! xyz"] simp: free_of_props)
  have lo: "sr_loads out = loads'"
    by (simp add: out)
  have fa: "sr_faces out = map (\<lambda>face. face_update_xyz api face a) faces"
    and ed: "sr_edges out = map (\<lambda>edge. edge_update_xyz api edge a) edges"
    by (simp_all add: out)
  have ss: "sr_s out = get_stresses api (sr_faces out) a s_calc"
    and ff: "sr_f out = get_forces api (sr_edges out) a"
    by (simp_all add: out)
  show ?thesis
    unfolding new lo
  proof (intro exI conjI)
    show "StiffnessMatrixAssembler ?free fixed edges faces = Inr stiff" by (fact st)
    show "ix (matrix stiff) ?free ?free = Inr Di" by (fact di')
    show "ix (matrix stiff) ?free fixed = Inr Df" by (fact df')
    show "update (Rotation_from_frame api) faces loads = Inr loads'" by (fact up)
    show "take_rows (mat loads') ?free = Inr p_free" by (fact pf)
    show "take_rows (h ! xyz) fixed = Inr x_fixed" by (fact xf)
    show "take_rows a fixed = Inr x_fixed" by (fact xf')
    show "sp_dot Df x_fixed = Inr Kfx" by (fact kx)
    show "np_sub p_free Kfx = Inr b" by (fact b)
    show "take_rows a ?free = Inr x" by (fact rb)
    show "sp_dot Di x = Inr b" by (fact sol)
    show "sr_faces out = map (\<lambda>face. face_update_xyz api face a) faces" by (fact fa)
    show "sr_edges out = map (\<lambda>edge. edge_update_xyz api edge a) edges" by (fact ed)
    show "sr_s out = get_stresses api (sr_faces out) a s_calc" by (fact ss)
    show "sr_f out = get_forces api (sr_edges out) a" by (fact ff)
  qed
qed

text \<open>
  In the example the free vertex is vertex 1: the system is \<open>2 x = (0, 0, 2) + (2, 0, 0)\<close>.
\<close>

theorem solve_free_system_witness:
  "nfd_solve example_api [example_xyz] 0 [0, 2] [example_face] [example_edge] example_loads 1
     = Inr \<lparr>sr_heap = [example_xyz, [(0, 0, 0), (1, 0, 1), (2, 0, 0)]], sr_xyz = 1,
            sr_r = [(3, 0, 0), (0, 0, 2), (- 3, 0, 0)],
            sr_s = Some [(0, 1, 0)], sr_f = [1],
            sr_faces = [example_face\<lparr>area := 3\<rparr>], sr_edges = [example_edge],
            sr_loads = example_loads\<rparr>
   \<and> (0 :: nat) < length [example_xyz]
   \<and> take_rows [(0, 0, 0), (1, 0, 1), (2, 0, 0)] [1] = Inr [(1, 0, 1)]
   \<and> take_rows (mat example_loads) [1] = Inr [(0, 0, 2)]
   \<and> take_rows example_xyz [0, 2] = Inr [(0, 0, 0), (2, 0, 0)]
   \<and> sp_dot \<lparr>sp_shape = (1, 2), sp_rows = [[- 1, - 1]]\<rparr> [(0, 0, 0), (2, 0, 0)]
       = Inr [(- 2, 0, 0)]
   \<and> np_sub [(0, 0, 2)] [(- 2, 0, 0)] = Inr [(2, 0, 2)]
   \<and> sp_dot \<lparr>sp_shape = (1, 1), sp_rows = [[2]]\<rparr> [(1, 0, 1)] = Inr [(2, 0, 2)]"
proof -
  let ?out = "\<lparr>sr_heap = [example_xyz, [(0, 0, 0), (1, 0, 1), (2, 0, 0)]], sr_xyz = 1,
            sr_r = [(3, 0, 0), (0, 0, 2), (- 3, 0, 0)],
            sr_s = Some [(0, 1, 0)] :: arr3 option, sr_f = [1],
            sr_faces = [example_face\<lparr>area := 3\<rparr>], sr_edges = [example_edge],
            sr_loads = example_loads\<rparr>"
  let ?K = "\<lparr>sp_shape = (3, 3),
             sp_rows = [[2, - 1, - 1], [- 1, 2, - 1], [- 1, - 1, 2 :: real]]\<rparr>"
  have s: "nfd_solve example_api [example_xyz] 0 [0, 2] [example_face] [example_edge]
             example_loads 1 = Inr ?out"
    using example_solve[of 0 "[example_xyz]" 0 example_face 1]
    by (simp add: example_xyz_def example_face_def)
  have l: "(0 :: nat) < length [example_xyz]"
    by simp
  have c: "\<forall>A b x. spsolve example_api A b = Inr x \<longrightarrow> sp_dot A x = Inr b"
    by (simp add: example_api_def solve_one_solves)
  have f: "free_of (length example_xyz) [0, 2] = [1]"
    by (simp add: example_xyz_def example_free[unfolded One_nat_def])
  have o: "sr_heap ?out ! sr_xyz ?out = [(0, 0, 0), (1, 0, 1), (2, 0, 0)]"
    "sr_loads ?out = example_loads" "[example_xyz] ! 0 = example_xyz"
    by simp_all
  from solve_free_system[OF s l c] obtain stiff K_free K_free_fixed P_free x_fixed Kx b x_free
    where 1: "StiffnessMatrixAssembler [1] [0, 2] [example_edge] [example_face] = Inr stiff"
      and 2: "ix (matrix stiff) [1] [1] = Inr K_free"
      and 3: "ix (matrix stiff) [1] [0, 2] = Inr K_free_fixed"
      and 4: "take_rows (mat example_loads) [1] = Inr P_free"
      and 5: "take_rows example_xyz [0, 2] = Inr x_fixed"
      and 6: "sp_dot K_free_fixed x_fixed = Inr Kx"
      and 7: "np_sub P_free Kx = Inr b"
      and 8: "take_rows [(0, 0, 0), (1, 0, 1), (2, 0, 0)] [1] = Inr x_free"
      and 9: "sp_dot K_free x_free = Inr b"
    unfolding f o by (elim exE conjE) (rule that, assumption+)
  have "StiffnessMatrixAssembler [1] [0, 2] [example_edge] [example_face]
          = Inr \<lparr>sa_free = [1], sa_fixed = [0, 2], sa_mat = ?K\<rparr>"
    by (rule example_stiffness) (simp_all add: example_face_def)
  with 1 have k: "matrix stiff = ?K"
    by (auto simp: matrix_def)
  from 2 have kf: "K_free = \<lparr>sp_shape = (1, 1), sp_rows = [[2]]\<rparr>"
    unfolding k example_blocks by simp
  from 3 have kff: "K_free_fixed = \<lparr>sp_shape = (1, 2), sp_rows = [[- 1, - 1]]\<rparr>"
    unfolding k example_blocks by simp
  from 4 have pf: "P_free = [(0, 0, 2)]"
    by (simp add: take_rows_def example_loads_def)
  from 5 have xf: "x_fixed = [(0, 0, 0), (2, 0, 0)]"
    by (simp add: take_rows_def example_xyz_def)
  from 6 have kx: "Kx = [(- 2, 0, 0)]"
    unfolding kff xf by (simp add: sp_dot_def vsum_def vadd_def smul_def vzero_def)
  from 7 have b: "b = [(2, 0, 2)]"
    unfolding pf kx by (simp add: np_sub_def vsub_def)
  from 8 have x: "x_free = [(1, 0, 1)]"
    by (simp add: take_rows_def)
  from s l 4 5 6 7 8 9 show ?thesis
    unfolding kf kff pf xf kx b x by blast
qed

text \<open>
  C3. With \<open>kmax = 1\<close> the driver runs no pass of the loop and prints nothing: it
  builds the load assembler and returns the coordinates, residuals, stresses and
  forces of one inner solve on the preprocessed mesh, called with the caller's
  \<open>s_calc\<close>; an error of that solve is the error of the driver. \<open>nfd\<close> is the driver with
  \<open>kmax = 1\<close>.
\<close>

theorem kmax_one_is_single_solve:
  "nfd_ur api args 1 =
     (case LoadMatrixAssembler (Rotation_from_frame api) (length (a_vertices args))
             (a_faces args) (a_vertex_loads args) (a_global_face_loads args)
             (a_local_face_loads args) of
        Inl e \<Rightarrow> Inl e
      | Inr loads \<Rightarrow>
          (case nfd_solve api [a_vertices args] 0 (a_fixed args) (a_faces args)
                  (a_edges args) loads (a_s_calc args) of
             Inl e \<Rightarrow> Inl e
           | Inr out \<Rightarrow>
               Inr \<lparr>res_xyz = sr_heap out ! sr_xyz out, res_r = sr_r out, res_s = sr_s out,
                    res_f = sr_f out, res_printed = None\<rparr>))
   \<and> nfd api args = nfd_ur api args 1"
  by (simp add: nfd_ur_def nfd_def solve_output_def Let_def split: sum.splits)

lemma example_assembler:
  "LoadMatrixAssembler (Rotation_from_frame example_api) (length (a_vertices example_args))
     (a_faces example_args) (a_vertex_loads example_args) (a_global_face_loads example_args)
     (a_local_face_loads example_args) = Inr example_loads"
  by (simp add: LoadMatrixAssembler_def load_mat_def update_def example_args_def
      example_loads_def Let_def)

theorem kmax_one_is_single_solve_witness:
  "nfd example_api example_args
     = Inr \<lparr>res_xyz = [(0, 0, 0), (1, 0, 1), (2, 0, 0)],
            res_r = [(3, 0, 0), (0, 0, 2), (- 3, 0, 0)], res_s = Some [(0, 1, 0)],
            res_f = [1], res_printed = None\<rparr>"
proof -
  have s: "nfd_solve example_api [a_vertices example_args] 0 (a_fixed example_args)
             (a_faces example_args) (a_edges example_args) example_loads
             (a_s_calc example_args)
           = Inr \<lparr>sr_heap = [example_xyz, [(0, 0, 0), (1, 0, 1), (2, 0, 0)]], sr_xyz = 1,
                  sr_r = [(3, 0, 0), (0, 0, 2), (- 3, 0, 0)],
                  sr_s = Some [(0, 1, 0)], sr_f = [1],
                  sr_faces = [example_face\<lparr>area := 3\<rparr>], sr_edges = [example_edge],
                  sr_loads = example_loads\<rparr>"
    using example_solve[of 0 "[example_xyz]" 0 example_face 1]
    by (simp add: example_xyz_def example_face_def example_args_def)
  note t = kmax_one_is_single_solve[of example_api example_args]
  from t have "nfd example_api example_args
      = (case nfd_solve example_api [a_vertices example_args] 0 (a_fixed example_args)
                (a_faces example_args) (a_edges example_args) example_loads
                (a_s_calc example_args) of
           Inl e \<Rightarrow> Inl e
         | Inr out \<Rightarrow>
             Inr \<lparr>res_xyz = sr_heap out ! sr_xyz out, res_r = sr_r out, res_s = sr_s out,
                  res_f = sr_f out, res_printed = None\<rparr>)"
    unfolding example_assembler by simp
  then show ?thesis
    unfolding s by simp
qed

section \<open>Properties of the driver\<close>

text \<open>What a successful pass through the loop body went through.\<close>

lemma loop_body_Inr:
  assumes "loop_body api fixed s_tol xyz_tol k h xyz faces edges loads = Inr it"
  obtains out amps ds dx where
    "nfd_solve api h xyz fixed faces edges loads (- 1) = Inr out"
    "amplitudes api (sr_s out) = Some amps"
    "np_sub (get_stress_goals api (sr_faces out)) amps = Inr ds"
    "np_sub (sr_heap out ! xyz) (sr_heap out ! sr_xyz out) = Inr dx"
    "py_max (map norm3 dx) = Inr (it_xyz_delta it)"
    "it_s_res it = average (map norm3 ds)"
    "it_converged it = (below (it_s_res it) s_tol \<or> it_xyz_delta it < xyz_tol)"
    "it_k it = k" "it_heap it = sr_heap out" "it_xyz it = sr_xyz out"
    "it_faces it = sr_faces out" "it_edges it = sr_edges out" "it_loads it = sr_loads out"
    "it_r it = sr_r out" "it_f it = sr_f out"
proof -
  note a = assms[unfolded loop_body_def Let_def]
  from a obtain out where
    1: "nfd_solve api h xyz fixed faces edges loads (- 1) = Inr out"
    by (cases "nfd_solve api h xyz fixed faces edges loads (- 1)") simp_all
  note a = a[unfolded 1 sum.case]
  from a obtain amps where 2: "amplitudes api (sr_s out) = Some amps"
    by (cases "amplitudes api (sr_s out)") simp_all
  note a = a[unfolded 2 option.case]
  from a obtain ds where 3: "np_sub (get_stress_goals api (sr_faces out)) amps = Inr ds"
    by (cases "np_sub (get_stress_goals api (sr_faces out)) amps") simp_all
  note a = a[unfolded 3 sum.case]
  from a obtain dx where 4: "np_sub (sr_heap out ! xyz) (sr_heap out ! sr_xyz out) = Inr dx"
    by (cases "np_sub (sr_heap out ! xyz) (sr_heap out ! sr_xyz out)") simp_all
  note a = a[unfolded 4 sum.case]
  from a obtain d where 5: "py_max (map norm3 dx) = Inr d"
    by (cases "py_max (map norm3 dx)") simp_all
  note a = a[unfolded 5 sum.case]
  from a have it: "it = \<lparr>it_k = k, it_heap = sr_heap out, it_xyz = sr_xyz out,
      it_r = sr_r out, it_f = sr_f out, it_s_res = average (map norm3 ds), it_xyz_delta = d,
      it_converged = (below (average (map norm3 ds)) s_tol \<or> d < xyz_tol),
      it_faces = sr_faces out, it_edges = sr_edges out, it_loads = sr_loads out\<rparr>"
    by simp
  show ?thesis
  proof (rule that[OF 1 2 3 4])
    show "py_max (map norm3 dx) = Inr (it_xyz_delta it)" by (simp add: it 5)
    show "it_s_res it = average (map norm3 ds)" by (simp add: it)
    show "it_converged it = (below (it_s_res it) s_tol \<or> it_xyz_delta it < xyz_tol)"
      by (simp add: it)
    show "it_k it = k" by (simp add: it)
    show "it_heap it = sr_heap out" by (simp add: it)
    show "it_xyz it = sr_xyz out" by (simp add: it)
    show "it_faces it = sr_faces out" by (simp add: it)
    show "it_edges it = sr_edges out" by (simp add: it)
    show "it_loads it = sr_loads out" by (simp add: it)
    show "it_r it = sr_r out" by (simp add: it)
    show "it_f it = sr_f out" by (simp add: it)
  qed
qed

lemma map2_nth:
  "length xs = length ys \<Longrightarrow> map2 f xs ys = map (\<lambda>i. f (xs ! i) (ys ! i)) [0..<length xs]"
  by (rule nth_equalityI) simp_all

lemma np_sub_same_length:
  assumes "length a = length b" "np_sub a b = Inr d"
  shows "map norm3 d = map (\<lambda>i. norm3 (vsub (a ! i) (b ! i))) [0..<length a]"
proof -
  from assms have "d = map2 vsub a b"
    by (simp add: np_sub_def)
  then show ?thesis
    using assms(1) by (simp add: map2_nth[OF assms(1)])
qed

lemma displacement_eq:
  assumes "length new = length old" "np_sub old new = Inr dx" "py_max (map norm3 dx) = Inr d"
  shows "old \<noteq> []" "d = spec_displacement_residual old new"
proof -
  have m: "map norm3 dx = map (\<lambda>i. norm3 (vsub (old ! i) (new ! i))) [0..<length old]"
    using assms(1,2) by (intro np_sub_same_length) simp_all
  from assms(3) obtain y ys where y: "map norm3 dx = y # ys" and d: "d = fold max ys y"
    by (auto simp: py_max_def split: list.splits)
  from y m show "old \<noteq> []"
    by auto
  have "d = Max (set (map norm3 dx))"
    unfolding y d by (rule Max.set_eq_fold[symmetric])
  then show "d = spec_displacement_residual old new"
    unfolding m spec_displacement_residual_def .
qed

lemma stress_eq:
  assumes "length amps = length goals" "goals \<noteq> []" "np_sub goals amps = Inr ds"
  shows "average (map norm3 ds) = Some (spec_stress_residual goals amps)"
proof -
  have m: "map norm3 ds = map (\<lambda>i. norm3 (vsub (goals ! i) (amps ! i))) [0..<length goals]"
    using assms(1,3) by (intro np_sub_same_length) simp_all
  show ?thesis
    unfolding m average_def spec_stress_residual_def using assms(2) by simp
qed

text \<open>One pass appends the new coordinates to the store and computes the residuals.\<close>

lemma loop_body_spec:
  assumes "loop_body api fixed s_tol xyz_tol k h xyz faces edges loads = Inr it"
    and "xyz < length h"
  shows "it_k it = k" "it_xyz it = length h"
    "it_heap it = h @ [it_heap it ! it_xyz it]"
    "pass_spec api s_tol xyz_tol (h ! xyz) (it_heap it ! it_xyz it) it"
proof -
  from assms(1) obtain out amps ds dx where
    so: "nfd_solve api h xyz fixed faces edges loads (- 1) = Inr out"
    and am: "amplitudes api (sr_s out) = Some amps"
    and ds: "np_sub (get_stress_goals api (sr_faces out)) amps = Inr ds"
    and dx: "np_sub (sr_heap out ! xyz) (sr_heap out ! sr_xyz out) = Inr dx"
    and mx: "py_max (map norm3 dx) = Inr (it_xyz_delta it)"
    and sr: "it_s_res it = average (map norm3 ds)"
    and co: "it_converged it = (below (it_s_res it) s_tol \<or> it_xyz_delta it < xyz_tol)"
    and k: "it_k it = k" and hp: "it_heap it = sr_heap out" and rf: "it_xyz it = sr_xyz out"
    and fa: "it_faces it = sr_faces out"
    by (rule loop_body_Inr)
  from so obtain x a where
    as: "assign_rows (h ! xyz) (free_of (length (h ! xyz)) fixed) x = Inr a"
    and h': "sr_heap out = h @ [a]" and r: "sr_xyz out = length h"
    and s: "sr_s out = get_stresses api (sr_faces out) a (- 1)"
    by (rule nfd_solve_Inr) simp
  have new: "it_heap it ! it_xyz it = a" and old: "sr_heap out ! xyz = h ! xyz"
    using assms(2) by (simp_all add: hp rf h' r nth_append)
  have len: "length a = length (h ! xyz)"
    by (rule assign_rows_frame(1)[OF as])
  show "it_k it = k" by (fact k)
  show "it_xyz it = length h" by (simp add: rf r)
  show "it_heap it = h @ [it_heap it ! it_xyz it]"
    unfolding new by (simp add: hp h')
  from dx[unfolded old] have dx': "np_sub (h ! xyz) a = Inr dx"
    by (simp add: h' r)
  note d = displacement_eq[OF len dx' mx]
  have st: "length amps = length (get_stress_goals api (sr_faces out))
            \<and> get_stress_goals api (sr_faces out) \<noteq> [] \<longrightarrow>
            it_s_res it = Some (spec_stress_residual (get_stress_goals api (sr_faces out)) amps)"
    using stress_eq[OF _ _ ds] sr by simp
  show "pass_spec api s_tol xyz_tol (h ! xyz) (it_heap it ! it_xyz it) it"
    unfolding new pass_spec_def Let_def fa
    using am ds sr st d len co by (simp add: s[symmetric])
qed

text \<open>The passes, unrolled from the front as the loop runs them.\<close>

lemma loop_body_k:
  "loop_body api fixed s_tol xyz_tol k h xyz faces edges loads = Inr it \<Longrightarrow> it_k it = k"
  by (erule loop_body_Inr)

lemma pass_front:
  "pass api fixed s_tol xyz_tol k h xyz faces edges loads (Suc n) =
     (case loop_body api fixed s_tol xyz_tol k h xyz faces edges loads of
        Inl e \<Rightarrow> Inl e
      | Inr it \<Rightarrow>
          pass api fixed s_tol xyz_tol (Suc k) (it_heap it) (it_xyz it)
            (it_faces it) (it_edges it) (it_loads it) n)"
proof (induction n)
  case 0
  show ?case
    by (cases "loop_body api fixed s_tol xyz_tol k h xyz faces edges loads") simp_all
next
  case (Suc n)
  have "pass api fixed s_tol xyz_tol k h xyz faces edges loads (Suc (Suc n)) =
     (case pass api fixed s_tol xyz_tol k h xyz faces edges loads (Suc n) of
        Inl e \<Rightarrow> Inl e
      | Inr it \<Rightarrow>
          loop_body api fixed s_tol xyz_tol (Suc (k + Suc n)) (it_heap it) (it_xyz it)
            (it_faces it) (it_edges it) (it_loads it))"
    by (rule pass.simps(2))
  also have "\<dots> =
     (case loop_body api fixed s_tol xyz_tol k h xyz faces edges loads of
        Inl e \<Rightarrow> Inl e
      | Inr it \<Rightarrow>
          pass api fixed s_tol xyz_tol (Suc k) (it_heap it) (it_xyz it)
            (it_faces it) (it_edges it) (it_loads it) (Suc n))"
    unfolding Suc.IH
    by (cases "loop_body api fixed s_tol xyz_tol k h xyz faces edges loads")
      (simp_all cong: sum.case_cong)
  finally show ?case .
qed

text \<open>
  The loop returns the variables of the first converged pass, or of the last pass
  when none converged.
\<close>

lemma for_loop_pass:
  assumes "for_loop api fixed s_tol xyz_tol m k h xyz faces edges loads prev = Inr res"
  shows "(m = 0 \<and> res = prev)
       \<or> (\<exists>n it. n < m \<and> res = Some it
             \<and> pass api fixed s_tol xyz_tol k h xyz faces edges loads n = Inr it
             \<and> (\<forall>j<n. \<exists>it'. pass api fixed s_tol xyz_tol k h xyz faces edges loads j = Inr it'
                          \<and> \<not> it_converged it')
             \<and> (it_converged it \<or> Suc n = m))"
  using assms
proof (induction m arbitrary: k h xyz faces edges loads prev)
  case 0
  then show ?case by simp
next
  case (Suc m)
  from Suc.prems obtain it0 where
    b: "loop_body api fixed s_tol xyz_tol k h xyz faces edges loads = Inr it0"
    by (cases "loop_body api fixed s_tol xyz_tol k h xyz faces edges loads") simp_all
  have p0: "pass api fixed s_tol xyz_tol k h xyz faces edges loads 0 = Inr it0"
    by (simp add: b)
  have pS: "pass api fixed s_tol xyz_tol k h xyz faces edges loads (Suc n)
      = pass api fixed s_tol xyz_tol (Suc k) (it_heap it0) (it_xyz it0)
          (it_faces it0) (it_edges it0) (it_loads it0) n" for n
    by (simp only: pass_front b sum.case)
  show ?case
  proof (cases "it_converged it0")
    case True
    with Suc.prems b have "res = Some it0"
      by simp
    with p0 True show ?thesis
      by (intro disjI2 exI[of _ 0] exI[of _ it0]) simp
  next
    case False
    with Suc.prems b have
      r: "for_loop api fixed s_tol xyz_tol m (Suc k) (it_heap it0) (it_xyz it0)
            (it_faces it0) (it_edges it0) (it_loads it0) (Some it0) = Inr res"
      by simp
    from Suc.IH[OF r] show ?thesis
    proof (rule disjE)
      assume "m = 0 \<and> res = Some it0"
      with p0 show ?thesis
        by (intro disjI2 exI[of _ 0] exI[of _ it0]) simp
    next
      assume "\<exists>n it. n < m \<and> res = Some it
             \<and> pass api fixed s_tol xyz_tol (Suc k) (it_heap it0) (it_xyz it0)
                  (it_faces it0) (it_edges it0) (it_loads it0) n = Inr it
             \<and> (\<forall>j<n. \<exists>it'. pass api fixed s_tol xyz_tol (Suc k) (it_heap it0) (it_xyz it0)
                  (it_faces it0) (it_edges it0) (it_loads it0) j = Inr it'
                          \<and> \<not> it_converged it')
             \<and> (it_converged it \<or> Suc n = m)"
      then obtain n it where n: "n < m" and res: "res = Some it"
        and p: "pass api fixed s_tol xyz_tol (Suc k) (it_heap it0) (it_xyz it0)
                  (it_faces it0) (it_edges it0) (it_loads it0) n = Inr it"
        and e: "\<forall>j<n. \<exists>it'. pass api fixed s_tol xyz_tol (Suc k) (it_heap it0) (it_xyz it0)
                  (it_faces it0) (it_edges it0) (it_loads it0) j = Inr it'
                    \<and> \<not> it_converged it'"
        and c: "it_converged it \<or> Suc n = m"
        by (elim exE conjE) (rule that)
      have e': "\<exists>it'. pass api fixed s_tol xyz_tol k h xyz faces edges loads j = Inr it'
                    \<and> \<not> it_converged it'" if "j < Suc n" for j
      proof (cases j)
        case 0
        with p0 False show ?thesis by simp
      next
        case (Suc j')
        with that e show ?thesis by (simp only: pS)
      qed
      show ?thesis
      proof (rule disjI2, rule exI[of _ "Suc n"], rule exI[of _ it], intro conjI)
        show "Suc n < Suc m" using n by simp
        show "res = Some it" by (fact res)
        show "pass api fixed s_tol xyz_tol k h xyz faces edges loads (Suc n) = Inr it"
          by (simp only: pS p)
        show "\<forall>j<Suc n. \<exists>it'. pass api fixed s_tol xyz_tol k h xyz faces edges loads j = Inr it'
                          \<and> \<not> it_converged it'"
          using e' by blast
        show "it_converged it \<or> Suc (Suc n) = Suc m"
          using c by simp
      qed
    qed
  qed
qed

text \<open>
  The store after pass \<open>n\<close> holds the coordinates of all passes so far, one array per
  pass after the arrays it started with, and every pass computed its residuals from
  its own coordinates and those of the pass before.
\<close>

lemma pass_Suc_Inr:
  assumes "pass api fixed s_tol xyz_tol k h xyz faces edges loads (Suc n) = Inr it"
  obtains it1 where
    "pass api fixed s_tol xyz_tol k h xyz faces edges loads n = Inr it1"
    "loop_body api fixed s_tol xyz_tol (Suc (k + n)) (it_heap it1) (it_xyz it1)
       (it_faces it1) (it_edges it1) (it_loads it1) = Inr it"
  using assms
  by (cases "pass api fixed s_tol xyz_tol k h xyz faces edges loads n") simp_all

lemma pass_all:
  assumes "pass api fixed s_tol xyz_tol k h xyz faces edges loads n = Inr it"
    and "Suc xyz = length h"
  shows "length (it_heap it) = xyz + n + 2 \<and> it_xyz it = xyz + Suc n
       \<and> take (length h) (it_heap it) = h
       \<and> (\<forall>j\<le>n. \<exists>it'. pass api fixed s_tol xyz_tol k h xyz faces edges loads j = Inr it'
              \<and> it_k it' = k + j \<and> it_xyz it' = xyz + Suc j
              \<and> it_heap it' = take (xyz + j + 2) (it_heap it)
              \<and> pass_spec api s_tol xyz_tol (it_heap it ! (xyz + j))
                    (it_heap it ! (xyz + Suc j)) it')"
  using assms(1)
proof (induction n arbitrary: it)
  case 0
  then have b: "loop_body api fixed s_tol xyz_tol k h xyz faces edges loads = Inr it"
    by simp
  from assms(2) have x: "xyz < length h"
    by simp
  note f = loop_body_spec[OF b x]
  from f(3) obtain new where hp: "it_heap it = h @ [new]"
    by blast
  have rf: "it_xyz it = xyz + Suc 0"
    using f(2) assms(2) by simp
  have new: "it_heap it ! it_xyz it = new"
    using f(2) by (simp add: hp)
  have old: "it_heap it ! xyz = h ! xyz"
    using x by (simp add: hp nth_append)
  have len: "length (it_heap it) = xyz + 0 + 2"
    using assms(2) by (simp add: hp)
  have tk: "take (length h) (it_heap it) = h"
    by (simp add: hp)
  have sp: "pass_spec api s_tol xyz_tol (it_heap it ! (xyz + 0)) (it_heap it ! (xyz + Suc 0)) it"
    using f(4) unfolding rf[symmetric] by (simp add: old)
  have "\<exists>it'. pass api fixed s_tol xyz_tol k h xyz faces edges loads 0 = Inr it'
              \<and> it_k it' = k + 0 \<and> it_xyz it' = xyz + Suc 0
              \<and> it_heap it' = take (xyz + 0 + 2) (it_heap it)
              \<and> pass_spec api s_tol xyz_tol (it_heap it ! (xyz + 0))
                    (it_heap it ! (xyz + Suc 0)) it'"
    using 0 f(1) rf len sp by (intro exI[of _ it]) simp
  with len rf tk show ?case
    by simp
next
  case (Suc n)
  from Suc.prems obtain it1 where
    p1: "pass api fixed s_tol xyz_tol k h xyz faces edges loads n = Inr it1"
    and b: "loop_body api fixed s_tol xyz_tol (Suc (k + n)) (it_heap it1) (it_xyz it1)
       (it_faces it1) (it_edges it1) (it_loads it1) = Inr it"
    by (rule pass_Suc_Inr)
  note ih = Suc.IH[OF p1]
  from ih have len1: "length (it_heap it1) = xyz + n + 2" and rf1: "it_xyz it1 = xyz + Suc n"
    and tk1: "take (length h) (it_heap it1) = h"
    by simp_all
  from ih have all1: "\<exists>it'. pass api fixed s_tol xyz_tol k h xyz faces edges loads j = Inr it'
              \<and> it_k it' = k + j \<and> it_xyz it' = xyz + Suc j
              \<and> it_heap it' = take (xyz + j + 2) (it_heap it1)
              \<and> pass_spec api s_tol xyz_tol (it_heap it1 ! (xyz + j))
                    (it_heap it1 ! (xyz + Suc j)) it'" if "j \<le> n" for j
    using that by blast
  have x: "it_xyz it1 < length (it_heap it1)"
    by (simp add: len1 rf1)
  note f = loop_body_spec[OF b x]
  from f(3) obtain new where hp: "it_heap it = it_heap it1 @ [new]"
    by blast
  have rf: "it_xyz it = xyz + Suc (Suc n)"
    using f(2) by (simp add: len1)
  have new: "it_heap it ! it_xyz it = new"
    using f(2) by (simp add: hp)
  have len: "length (it_heap it) = xyz + Suc n + 2"
    by (simp add: hp len1)
  have tk: "take (length h) (it_heap it) = h"
    using tk1 assms(2) by (simp add: hp len1)
  have nth1: "it_heap it ! i = it_heap it1 ! i" if "i < xyz + n + 2" for i
    using that by (simp add: hp nth_append len1)
  have tk': "take i (it_heap it) = take i (it_heap it1)" if "i \<le> xyz + n + 2" for i
    using that by (simp add: hp len1)
  have sp: "pass_spec api s_tol xyz_tol (it_heap it ! (xyz + Suc n))
              (it_heap it ! (xyz + Suc (Suc n))) it"
    using f(4) unfolding rf[symmetric] rf1 by (simp add: nth1)
  have last: "\<exists>it'. pass api fixed s_tol xyz_tol k h xyz faces edges loads (Suc n) = Inr it'
              \<and> it_k it' = k + Suc n \<and> it_xyz it' = xyz + Suc (Suc n)
              \<and> it_heap it' = take (xyz + Suc n + 2) (it_heap it)
              \<and> pass_spec api s_tol xyz_tol (it_heap it ! (xyz + Suc n))
                    (it_heap it ! (xyz + Suc (Suc n))) it'"
    using Suc.prems f(1) rf len sp by (intro exI[of _ it]) simp
  have "\<exists>it'. pass api fixed s_tol xyz_tol k h xyz faces edges loads j = Inr it'
              \<and> it_k it' = k + j \<and> it_xyz it' = xyz + Suc j
              \<and> it_heap it' = take (xyz + j + 2) (it_heap it)
              \<and> pass_spec api s_tol xyz_tol (it_heap it ! (xyz + j))
                    (it_heap it ! (xyz + Suc j)) it'" if j: "j \<le> Suc n" for j
  proof (cases "j = Suc n")
    case True
    with last show ?thesis by simp
  next
    case False
    with j have jn: "j \<le> n" by simp
    from jn have i: "xyz + j < xyz + n + 2" "xyz + Suc j < xyz + n + 2" "xyz + j + 2 \<le> xyz + n + 2"
      by simp_all
    from all1[OF jn] show ?thesis
      unfolding nth1[OF i(1)] nth1[OF i(2)] tk'[OF i(3)] .
  qed
  with len rf tk show ?case
    by blast
qed

lemma nfd_ur_loop_Inr:
  assumes "kmax \<noteq> 1" and "nfd_ur api args kmax = Inr res"
  obtains loads it where
    "LoadMatrixAssembler (Rotation_from_frame api) (length (a_vertices args)) (a_faces args)
       (a_vertex_loads args) (a_global_face_loads args) (a_local_face_loads args) = Inr loads"
    "for_loop api (a_fixed args) (a_s_tol args) (a_xyz_tol args) (nat kmax) 0
       [a_vertices args] 0 (a_faces args) (a_edges args) loads None = Inr (Some it)"
    "res = \<lparr>res_xyz = it_heap it ! it_xyz it, res_r = it_r it,
            res_s = get_stresses api (it_faces it) (it_heap it ! it_xyz it) (a_s_calc args),
            res_f = it_f it,
            res_printed = Some (output_message (it_converged it) (it_k it) (it_s_res it)
                                  (it_xyz_delta it))\<rparr>"
proof -
  note a = assms(2)[unfolded nfd_ur_def Let_def]
  from a obtain loads where
    1: "LoadMatrixAssembler (Rotation_from_frame api) (length (a_vertices args)) (a_faces args)
       (a_vertex_loads args) (a_global_face_loads args) (a_local_face_loads args) = Inr loads"
    by (cases "LoadMatrixAssembler (Rotation_from_frame api) (length (a_vertices args))
       (a_faces args) (a_vertex_loads args) (a_global_face_loads args)
       (a_local_face_loads args)") simp_all
  note a = a[unfolded 1 sum.case if_not_P[OF assms(1)]]
  from a obtain r where
    2: "for_loop api (a_fixed args) (a_s_tol args) (a_xyz_tol args) (nat kmax) 0
       [a_vertices args] 0 (a_faces args) (a_edges args) loads None = Inr r"
    by (cases "for_loop api (a_fixed args) (a_s_tol args) (a_xyz_tol args) (nat kmax) 0
       [a_vertices args] 0 (a_faces args) (a_edges args) loads None") simp_all
  note a = a[unfolded 2 sum.case]
  from a obtain it where 3: "r = Some it"
    by (cases r) simp_all
  from a have 4: "res = \<lparr>res_xyz = it_heap it ! it_xyz it, res_r = it_r it,
            res_s = get_stresses api (it_faces it) (it_heap it ! it_xyz it) (a_s_calc args),
            res_f = it_f it,
            res_printed = Some (output_message (it_converged it) (it_k it) (it_s_res it)
                                  (it_xyz_delta it))\<rparr>"
    unfolding 3 by simp
  show ?thesis
    by (rule that[OF 1 2[unfolded 3] 4])
qed

text \<open>
  C1. A run of the driver with \<open>kmax > 1\<close> that returns went through \<open>n + 1 \<le> kmax\<close>
  passes of the loop body. The store of the last pass holds the coordinates of the
  mesh followed by those of every pass. Every pass computed its stress residual from
  the goals and the amplitudes of the stresses it had just computed and its
  displacement residual from its coordinates and those before it, and counted as
  converged when the stress residual was below \<open>s_tol\<close> or the displacement residual
  below \<open>xyz_tol\<close>. No pass before the last converged, and the last one either
  converged or was pass number \<open>kmax\<close>. The driver returns the coordinates, residuals
  and forces of the last pass, and prints the message of convergence or of no
  convergence with the number of passes.
\<close>

theorem nfd_ur_iterations:
  assumes "1 < kmax" and "nfd_ur api args kmax = Inr res"
  shows "\<exists>loads n last.
      LoadMatrixAssembler (Rotation_from_frame api) (length (a_vertices args)) (a_faces args)
        (a_vertex_loads args) (a_global_face_loads args) (a_local_face_loads args) = Inr loads
    \<and> int (Suc n) \<le> kmax
    \<and> pass api (a_fixed args) (a_s_tol args) (a_xyz_tol args) 0 [a_vertices args] 0
          (a_faces args) (a_edges args) loads n = Inr last
    \<and> length (it_heap last) = n + 2
    \<and> it_heap last ! 0 = a_vertices args
    \<and> (\<forall>j\<le>n. \<exists>it.
           pass api (a_fixed args) (a_s_tol args) (a_xyz_tol args) 0 [a_vertices args] 0
             (a_faces args) (a_edges args) loads j = Inr it
         \<and> it_k it = j
         \<and> pass_spec api (a_s_tol args) (a_xyz_tol args) (it_heap last ! j)
               (it_heap last ! Suc j) it
         \<and> (j < n \<longrightarrow> \<not> it_converged it))
    \<and> (it_converged last \<or> int (Suc n) = kmax)
    \<and> res_xyz res = it_heap last ! Suc n
    \<and> res_r res = it_r last
    \<and> res_f res = it_f last
    \<and> res_s res = get_stresses api (it_faces last) (it_heap last ! Suc n) (a_s_calc args)
    \<and> res_printed res
        = Some (if it_converged last then Convergence_reached (Suc n)
                else No_convergence_reached (Suc n) (it_s_res last) (it_xyz_delta last))"
proof -
  from assms(1) have k1: "kmax \<noteq> 1"
    by simp
  from k1 assms(2) obtain loads it where
    lo: "LoadMatrixAssembler (Rotation_from_frame api) (length (a_vertices args)) (a_faces args)
       (a_vertex_loads args) (a_global_face_loads args) (a_local_face_loads args) = Inr loads"
    and fl: "for_loop api (a_fixed args) (a_s_tol args) (a_xyz_tol args) (nat kmax) 0
       [a_vertices args] 0 (a_faces args) (a_edges args) loads None = Inr (Some it)"
    and res: "res = \<lparr>res_xyz = it_heap it ! it_xyz it, res_r = it_r it,
            res_s = get_stresses api (it_faces it) (it_heap it ! it_xyz it) (a_s_calc args),
            res_f = it_f it,
            res_printed = Some (output_message (it_converged it) (it_k it) (it_s_res it)
                                  (it_xyz_delta it))\<rparr>"
    by (rule nfd_ur_loop_Inr)
  let ?pass = "pass api (a_fixed args) (a_s_tol args) (a_xyz_tol args) 0 [a_vertices args] 0
          (a_faces args) (a_edges args) loads"
  from for_loop_pass[OF fl] obtain n where
    n: "n < nat kmax" and pn: "?pass n = Inr it"
    and before: "\<forall>j<n. \<exists>it'. ?pass j = Inr it' \<and> \<not> it_converged it'"
    and stop: "it_converged it \<or> Suc n = nat kmax"
    by auto
  have one: "Suc 0 = length [a_vertices args]"
    by simp
  note pa = pass_all[OF pn one]
  from pa have len: "length (it_heap it) = n + 2" and rf: "it_xyz it = Suc n"
    and tk: "take (length [a_vertices args]) (it_heap it) = [a_vertices args]"
    by simp_all
  have all: "\<exists>it'. ?pass j = Inr it' \<and> it_k it' = j
      \<and> pass_spec api (a_s_tol args) (a_xyz_tol args) (it_heap it ! j) (it_heap it ! Suc j) it'
      \<and> (j < n \<longrightarrow> \<not> it_converged it')" if j: "j \<le> n" for j
  proof -
    from pa j obtain it' where
      1: "?pass j = Inr it'" and 2: "it_k it' = 0 + j"
      and 3: "pass_spec api (a_s_tol args) (a_xyz_tol args) (it_heap it ! (0 + j))
                (it_heap it ! (0 + Suc j)) it'"
      by blast
    have "\<not> it_converged it'" if "j < n"
      using before that 1 by auto
    with 1 2 3 show ?thesis
      by (intro exI[of _ it']) simp
  qed
  have h0: "it_heap it ! 0 = a_vertices args"
  proof -
    have "take (length [a_vertices args]) (it_heap it) ! 0 = it_heap it ! 0"
      by simp
    then show ?thesis
      unfolding tk by simp
  qed
  have km: "int (Suc n) \<le> kmax"
    using n by linarith
  have stop': "it_converged it \<or> int (Suc n) = kmax"
    using stop assms(1) by linarith
  have ik: "it_k it = n"
    using all[of n] pn by auto
  have pr: "res_printed res
        = Some (if it_converged it then Convergence_reached (Suc n)
                else No_convergence_reached (Suc n) (it_s_res it) (it_xyz_delta it))"
    by (simp add: res output_message_def ik)
  have r1: "res_xyz res = it_heap it ! Suc n" and r2: "res_r res = it_r it"
    and r3: "res_f res = it_f it"
    and r4: "res_s res = get_stresses api (it_faces it) (it_heap it ! Suc n) (a_s_calc args)"
    by (simp_all add: res rf)
  show ?thesis
  proof (rule exI[of _ loads], rule exI[of _ n], rule exI[of _ it], intro conjI)
    show "\<forall>j\<le>n. \<exists>it'. ?pass j = Inr it' \<and> it_k it' = j
      \<and> pass_spec api (a_s_tol args) (a_xyz_tol args) (it_heap it ! j) (it_heap it ! Suc j) it'
      \<and> (j < n \<longrightarrow> \<not> it_converged it')"
      using all by blast
  qed (fact lo km pn len h0 stop' r1 r2 r3 r4 pr)+
qed

text \<open>
  The example with both tolerances at \<open>1 / 100\<close>: the first pass moves the free vertex
  by 1, the second does not move it, and the stress residual is 1 in both.
\<close>

lemma example_loop_body:
  assumes "xyz < length h" "h ! xyz = [(0, 0, 0), (1, 0, z), (2, 0, 0)]"
    and "vertices_ids fc = [0, 1, 2]" "force_densities fc = [1, 0, 1]"
  shows "loop_body example_api [0, 2] (1 / 100) (1 / 100) k h xyz [fc] [example_edge]
           example_loads
   = Inr \<lparr>it_k = k, it_heap = h @ [[(0, 0, 0), (1, 0, 1), (2, 0, 0)]], it_xyz = length h,
          it_r = [(3, 0, z), (0, 0, 2 - 2 * z), (- 3, 0, z)], it_f = [1],
          it_s_res = Some 1, it_xyz_delta = \<bar>z - 1\<bar>,
          it_converged = (\<bar>z - 1\<bar> < 1 / 100),
          it_faces = [fc\<lparr>area := 3\<rparr>], it_edges = [example_edge],
          it_loads = example_loads\<rparr>"
proof -
  have s: "nfd_solve example_api h xyz [0, 2] [fc] [example_edge] example_loads (- 1)
   = Inr \<lparr>sr_heap = h @ [[(0, 0, 0), (1, 0, 1), (2, 0, 0)]], sr_xyz = length h,
          sr_r = [(3, 0, z), (0, 0, 2 - 2 * z), (- 3, 0, z)],
          sr_s = Some [(0, 1, 0)], sr_f = [1],
          sr_faces = [fc\<lparr>area := 3\<rparr>], sr_edges = [example_edge],
          sr_loads = example_loads\<rparr>"
    by (rule example_solve[OF assms]) simp
  have g: "get_stress_goals example_api [fc\<lparr>area := 3\<rparr>] = [(1, 1, 0)]"
    "amplitudes example_api (Some [(0, 1, 0)]) = Some [(0, 1, 0)]"
    by (simp_all add: example_api_def)
  have d: "np_sub [(1, 1, 0)] [(0, 1, 0)] = Inr [(1, 0, 0)]"
    by (simp add: np_sub_def vsub_def)
  have a: "average (map norm3 [(1, 0, 0)]) = Some 1"
    by (simp add: average_def norm3_def)
  have o: "(h @ [[(0, 0, 0), (1, 0, 1), (2, 0, 0)]]) ! xyz = [(0, 0, 0), (1, 0, z), (2, 0, 0)]"
    "(h @ [[(0, 0, 0), (1, 0, 1), (2, 0, 0)]]) ! length h = [(0, 0, 0), (1, 0, 1), (2, 0, 0)]"
    using assms(1,2) by (simp_all add: nth_append)
  have x: "np_sub [(0, 0, 0), (1, 0, z), (2, 0, 0)] [(0, 0, 0), (1, 0, 1), (2, 0, 0)]
             = Inr [(0, 0, 0), (0, 0, z - 1), (0, 0, 0)]"
    by (simp add: np_sub_def vsub_def)
  have m: "py_max (map norm3 [(0, 0, 0), (0, 0, z - 1), (0, 0, 0)]) = Inr \<bar>z - 1\<bar>"
    by (simp add: py_max_def norm3_def)
  have b: "below (Some 1) (1 / 100) = False"
    by (simp add: below_def)
  show ?thesis
    unfolding loop_body_def Let_def s sum.case solve_result.simps g option.case d a o x m b
    by simp
qed

lemma example_pass_0:
  "pass example_api [0, 2] (1 / 100) (1 / 100) 0 [example_xyz] 0 [example_face] [example_edge]
     example_loads 0
   = Inr \<lparr>it_k = 0, it_heap = [example_xyz, [(0, 0, 0), (1, 0, 1), (2, 0, 0)]], it_xyz = 1,
          it_r = [(3, 0, 0), (0, 0, 2), (- 3, 0, 0)], it_f = [1],
          it_s_res = Some 1, it_xyz_delta = 1, it_converged = False,
          it_faces = [example_face\<lparr>area := 3\<rparr>], it_edges = [example_edge],
          it_loads = example_loads\<rparr>"
  using example_loop_body[of 0 "[example_xyz]" 0 example_face 0]
  by (simp add: example_xyz_def example_face_def)

lemma example_pass_1:
  "pass example_api [0, 2] (1 / 100) (1 / 100) 0 [example_xyz] 0 [example_face] [example_edge]
     example_loads 1
   = Inr \<lparr>it_k = 1,
          it_heap = [example_xyz, [(0, 0, 0), (1, 0, 1), (2, 0, 0)],
                     [(0, 0, 0), (1, 0, 1), (2, 0, 0)]],
          it_xyz = 2,
          it_r = [(3, 0, 1), (0, 0, 0), (- 3, 0, 1)], it_f = [1],
          it_s_res = Some 1, it_xyz_delta = 0, it_converged = True,
          it_faces = [example_face\<lparr>area := 3\<rparr>], it_edges = [example_edge],
          it_loads = example_loads\<rparr>"
proof -
  have "pass example_api [0, 2] (1 / 100) (1 / 100) 0 [example_xyz] 0 [example_face]
          [example_edge] example_loads (Suc 0)
        = loop_body example_api [0, 2] (1 / 100) (1 / 100) (Suc 0)
            [example_xyz, [(0, 0, 0), (1, 0, 1), (2, 0, 0)]] 1
            [example_face\<lparr>area := 3\<rparr>] [example_edge] example_loads"
    unfolding pass.simps(2) example_pass_0 by simp
  also have "\<dots> = Inr \<lparr>it_k = 1,
          it_heap = [example_xyz, [(0, 0, 0), (1, 0, 1), (2, 0, 0)],
                     [(0, 0, 0), (1, 0, 1), (2, 0, 0)]],
          it_xyz = 2,
          it_r = [(3, 0, 1), (0, 0, 0), (- 3, 0, 1)], it_f = [1],
          it_s_res = Some 1, it_xyz_delta = 0, it_converged = True,
          it_faces = [example_face\<lparr>area := 3\<rparr>], it_edges = [example_edge],
          it_loads = example_loads\<rparr>"
    using example_loop_body[of 1 "[example_xyz, [(0, 0, 0), (1, 0, 1), (2, 0, 0)]]" 1
        "example_face\<lparr>area := 3\<rparr>" "Suc 0"]
    by (simp add: example_face_def)
  finally show ?thesis
    by simp
qed

end
